theory Spec2Isabelle
  imports Complex_Main
begin

section \<open>Values, frames and errors\<close>

text \<open>
  The schema module of pypelayer (\<^verbatim>\<open>pypelayer/schema.py\<close>) lists sample objects on S3,
  reads each one into a pandas DataFrame, concatenates the frames, and translates the
  column dtypes of the result into Snowflake type tokens.

  A decoded JSON document is the Python object \<^verbatim>\<open>json.loads\<close> returns. The code never
  computes with a number, so a float is kept as a rational.
\<close>

datatype json =
    JNull
  | JBool bool
  | JInt int
  | JFloat rat
  | JString string
  | JArray "json list"
  | JObject "(string \<times> json) list"

text \<open>
  A cell of a DataFrame: a missing value (\<^verbatim>\<open>None\<close>, \<^verbatim>\<open>NaN\<close>, \<^verbatim>\<open>NaT\<close>, \<^verbatim>\<open>pd.NA\<close>: whatever
  \<^verbatim>\<open>isna()\<close> answers True for), a Python value, or a timestamp that
  \<^verbatim>\<open>pd.to_datetime\<close> made of a value.
\<close>

datatype cell = NA | Val json | Datetime json

text \<open>
  A DataFrame is its column index, each label with the name of the column's dtype
  (\<^verbatim>\<open>str(df.dtypes[idx])\<close>), and its rows; a row gives a cell for each label it holds and
  is missing (\<open>NA\<close>) elsewhere. \<^verbatim>\<open>len(df)\<close> is the number of rows.
\<close>

type_synonym row = "(string \<times> cell) list"

record dataframe =
  columns :: "(string \<times> string) list"
  rows :: "row list"

record s3_object =
  bucket_name :: string
  key :: string

text \<open>
  The exceptions the module raises itself, and \<open>LibraryError\<close> for an exception that
  comes out of a library call (a file that does not parse, for example).
\<close>

datatype error =
    FileNotFoundError
  | ValueError string
  | KeyError string
  | LibraryError string

text \<open>
  What the module calls and does not define: the S3 listing and bodies, the parsers,
  the dtype that \<^verbatim>\<open>pd.concat(...).convert_dtypes()\<close> gives a column of the concatenated
  frames, what \<^verbatim>\<open>pd.to_datetime\<close> makes of a series under the format
  \<^verbatim>\<open>%Y-%m-%d %H:%M:%S\<close>, and \<^verbatim>\<open>textwrap.dedent\<close>. They are parameters: every theorem
  below holds for any behaviour of them.
  \<^item> \<open>list_objects_v2 e bucket prefix max_keys\<close> is the \<^verbatim>\<open>Contents\<close> entry of the response,
    each object as its \<^verbatim>\<open>Key\<close> and \<^verbatim>\<open>Size\<close>, or \<open>None\<close> when the response has none;
  \<^item> \<open>get_body e obj\<close> is \<^verbatim>\<open>obj.get()["Body"]\<close>;
  \<^item> \<open>read_csv e body\<close> is \<^verbatim>\<open>pd.read_csv(body, header=0)\<close>, \<open>json_loads e body\<close> is
    \<^verbatim>\<open>json.loads(body.read().decode("utf-8"))\<close> and \<open>json_normalize e data\<close> is
    \<^verbatim>\<open>pd.json_normalize(data)\<close>; each is \<open>Inl\<close> when the call raises;
  \<^item> \<open>convert_dtype e frames c\<close> is the name of the dtype of column \<open>c\<close> in
    \<^verbatim>\<open>pd.concat(frames).convert_dtypes()\<close>;
  \<^item> \<open>pd_to_datetime e cells\<close> is \<open>None\<close> when \<^verbatim>\<open>pd.to_datetime\<close> raises ValueError on the
    series \<open>cells\<close>; otherwise it is the name of the dtype of the series it returns and
    the value it puts in the place of each value that is not null. That value may be
    null itself (\<^verbatim>\<open>NaT\<close>), and the dtype need not be \<^verbatim>\<open>datetime64[ns]\<close>.
\<close>

record env =
  list_objects_v2 :: "string \<Rightarrow> string \<Rightarrow> int \<Rightarrow> (string \<times> int) list option"
  get_body :: "s3_object \<Rightarrow> string"
  read_csv :: "string \<Rightarrow> string + dataframe"
  json_loads :: "string \<Rightarrow> string + json"
  json_normalize :: "json \<Rightarrow> string + dataframe"
  convert_dtype :: "dataframe list \<Rightarrow> string \<Rightarrow> string"
  pd_to_datetime :: "cell list \<Rightarrow> (string \<times> (cell \<Rightarrow> cell)) option"
  dedent :: "string \<Rightarrow> string"

section \<open>Python containers\<close>

text \<open>\<^verbatim>\<open>s.endswith(suffix)\<close>.\<close>

definition endswith :: "string \<Rightarrow> string \<Rightarrow> bool" where
  "endswith s suffix =
     (length suffix \<le> length s \<and> drop (length s - length suffix) s = suffix)"

text \<open>\<^verbatim>\<open>sep.join(xs)\<close>.\<close>

fun py_join :: "string \<Rightarrow> string list \<Rightarrow> string" where
  "py_join sep [] = []"
| "py_join sep [x] = x"
| "py_join sep (x # y # ys) = x @ sep @ py_join sep (y # ys)"

text \<open>
  A \<^verbatim>\<open>dict\<close> keeps its keys in insertion order: \<^verbatim>\<open>d[k] = v\<close> replaces the value of a key
  that is there, in place, and appends a new key at the end. \<^verbatim>\<open>d.update(pairs)\<close> does so
  for each pair in turn.
\<close>

fun dict_set :: "('k \<times> 'v) list \<Rightarrow> 'k \<Rightarrow> 'v \<Rightarrow> ('k \<times> 'v) list" where
  "dict_set [] k v = [(k, v)]"
| "dict_set ((k', v') # d) k v =
     (if k' = k then (k, v) # d else (k', v') # dict_set d k v)"

fun dict_update :: "('k \<times> 'v) list \<Rightarrow> ('k \<times> 'v) list \<Rightarrow> ('k \<times> 'v) list" where
  "dict_update d [] = d"
| "dict_update d ((k, v) # pairs) = dict_update (dict_set d k v) pairs"

text \<open>The first error of a list comprehension whose element expression may raise.\<close>

fun try_all :: "('a \<Rightarrow> 'e + 'b) \<Rightarrow> 'a list \<Rightarrow> 'e + 'b list" where
  "try_all f [] = Inr []"
| "try_all f (x # xs) =
     (case f x of
        Inl err \<Rightarrow> Inl err
      | Inr y \<Rightarrow> (case try_all f xs of Inl err \<Rightarrow> Inl err | Inr ys \<Rightarrow> Inr (y # ys)))"

section \<open>The sampler: \<^verbatim>\<open>s3_util.list_non_empty_objects\<close>\<close>

fun non_empty_objects :: "string \<Rightarrow> string \<Rightarrow> (string \<times> int) list \<Rightarrow> s3_object list" where
  "non_empty_objects s3_bucket_name suffix [] = []"
| "non_empty_objects s3_bucket_name suffix ((k, sz) # contents) =
     (if endswith k suffix \<and> sz > 0
      then \<lparr>bucket_name = s3_bucket_name, key = k\<rparr> # non_empty_objects s3_bucket_name suffix contents
      else non_empty_objects s3_bucket_name suffix contents)"

definition list_non_empty_objects ::
    "env \<Rightarrow> string \<Rightarrow> string \<Rightarrow> string \<Rightarrow> int \<Rightarrow> s3_object list" where
  "list_non_empty_objects e s3_bucket_name prefix suffix limit =
     (case list_objects_v2 e s3_bucket_name prefix limit of
        None \<Rightarrow> []
      | Some contents \<Rightarrow> non_empty_objects s3_bucket_name suffix contents)"

section \<open>Frames: what the module asks of pandas\<close>

definition colnames :: "dataframe \<Rightarrow> string list" where
  "colnames df = map fst (columns df)"

text \<open>The cell of a row under a label, and \<^verbatim>\<open>df[column]\<close> as the list of its cells.\<close>

definition cell_at :: "row \<Rightarrow> string \<Rightarrow> cell" where
  "cell_at r c = (case map_of r c of None \<Rightarrow> NA | Some v \<Rightarrow> v)"

definition getitem :: "dataframe \<Rightarrow> string \<Rightarrow> cell list" where
  "getitem df c = map (\<lambda>r. cell_at r c) (rows df)"

text \<open>\<^verbatim>\<open>series.isna().sum()\<close>.\<close>

definition isna_sum :: "cell list \<Rightarrow> nat" where
  "isna_sum cells = length (filter (\<lambda>x. x = NA) cells)"

text \<open>
  \<^verbatim>\<open>pd.concat(frames)\<close> with its defaults (rows stacked, \<^verbatim>\<open>join="outer"\<close>,
  \<^verbatim>\<open>sort=False\<close>): the labels of the result are the labels of the frames, each once, in
  the order of their first appearance; the rows are the rows of the frames in order, and a
  row has no value under a label its own frame does not have.
\<close>

primrec uniq :: "'a list \<Rightarrow> 'a list" where
  "uniq [] = []"
| "uniq (x # xs) = x # filter (\<lambda>y. y \<noteq> x) (uniq xs)"

definition reindex :: "string list \<Rightarrow> row \<Rightarrow> row" where
  "reindex names r = filter (\<lambda>(k, v). k \<in> set names) r"

definition concat_columns :: "dataframe list \<Rightarrow> string list" where
  "concat_columns frames = uniq (concat (map colnames frames))"

definition concat_rows :: "dataframe list \<Rightarrow> row list" where
  "concat_rows frames = concat (map (\<lambda>f. map (reindex (colnames f)) (rows f)) frames)"

text \<open>
  \<^verbatim>\<open>pd.concat(frames).convert_dtypes()\<close>: the concatenated frame, each column with the
  dtype pandas settles on for it. Null cells stay null and strings stay strings.
\<close>

definition concat_convert_dtypes :: "env \<Rightarrow> dataframe list \<Rightarrow> dataframe" where
  "concat_convert_dtypes e frames =
     \<lparr>columns = map (\<lambda>c. (c, convert_dtype e frames c)) (concat_columns frames),
      rows = concat_rows frames\<rparr>"

text \<open>
  \<^verbatim>\<open>pd.to_datetime(series, format=...)\<close> with the default \<^verbatim>\<open>errors="raise"\<close>: it raises
  ValueError (here \<open>None\<close>) or returns a series over the same index, here its dtype and
  its values. The returned series is null where the given one was null; where the
  given one holds a value, it holds what pandas made of that value, which may be null
  as well.
\<close>

definition to_datetime :: "env \<Rightarrow> cell list \<Rightarrow> (string \<times> cell list) option" where
  "to_datetime e cells =
     (case pd_to_datetime e cells of
        None \<Rightarrow> None
      | Some (dt, convert) \<Rightarrow> Some (dt, map (\<lambda>x. if x = NA then NA else convert x) cells))"

text \<open>\<^verbatim>\<open>df[column] = series\<close> for a label of the frame, the series of dtype \<open>dt\<close>.\<close>

definition setitem :: "dataframe \<Rightarrow> string \<Rightarrow> string \<Rightarrow> cell list \<Rightarrow> dataframe" where
  "setitem df c dt cells =
     \<lparr>columns = map (\<lambda>(n, d). if n = c then (n, dt) else (n, d)) (columns df),
      rows = map (\<lambda>(r, v). dict_set r c v) (zip (rows df) cells)\<rparr>"

definition dtype_of :: "dataframe \<Rightarrow> string \<Rightarrow> string" where
  "dtype_of df c = (case map_of (columns df) c of None \<Rightarrow> [] | Some d \<Rightarrow> d)"

section \<open>\<^verbatim>\<open>schema.py\<close>\<close>

definition PANDAS_TO_SNOWFLAKE :: "(string \<times> string) list" where
  "PANDAS_TO_SNOWFLAKE =
     [(''Int64'', ''NUMBER(38,0)''),
      (''Float64'', ''NUMBER(38,8)''),
      (''string'', ''VARCHAR''),
      (''boolean'', ''BOOLEAN''),
      (''object'', ''VARIANT''),
      (''datetime64[ns]'', ''TIMESTAMP WITHOUT TIME ZONE'')]"

text \<open>
  \<^verbatim>\<open>_parse_datetime\<close>: the loop over \<^verbatim>\<open>df.columns\<close>, the frame passed along. Only a column
  whose dtype is \<^verbatim>\<open>string\<close> is tried; a ValueError of \<^verbatim>\<open>pd.to_datetime\<close> is caught and the
  column left as it is; a series that \<^verbatim>\<open>pd.to_datetime\<close> returns is assigned to the column,
  whatever its dtype and its values.
\<close>

fun parse_datetime_loop :: "env \<Rightarrow> string list \<Rightarrow> dataframe \<Rightarrow> dataframe" where
  "parse_datetime_loop e [] df = df"
| "parse_datetime_loop e (column # rest) df =
     parse_datetime_loop e rest
       (if dtype_of df column = ''string''
        then (case to_datetime e (getitem df column) of
                Some (dt, series) \<Rightarrow> setitem df column dt series
              | None \<Rightarrow> df)
        else df)"

definition parse_datetime :: "env \<Rightarrow> dataframe \<Rightarrow> dataframe" where
  "parse_datetime e df = parse_datetime_loop e (colnames df) df"

text \<open>
  \<^verbatim>\<open>_get_schema_from_df\<close>: the loop over \<^verbatim>\<open>enumerate(df.columns)\<close>, each label with the
  dtype at its position (\<^verbatim>\<open>df.dtypes[idx]\<close>), \<open>result\<close> passed along. \<^verbatim>\<open>len(df)\<close> is the number
  of rows and \<^verbatim>\<open>df[column]\<close> the cells under the label. A dtype that is not a key of
  \<open>PANDAS_TO_SNOWFLAKE\<close> raises KeyError.
\<close>

fun get_schema_loop ::
    "dataframe \<Rightarrow> (string \<times> string) list \<Rightarrow> (string \<times> string) list
      \<Rightarrow> error + (string \<times> string) list" where
  "get_schema_loop df [] result = Inr result"
| "get_schema_loop df ((column, dt) # rest) result =
     (let is_empty = (length (rows df) = isna_sum (getitem df column));
          dtype = (if is_empty then ''object'' else dt)
      in case map_of PANDAS_TO_SNOWFLAKE dtype of
           None \<Rightarrow> Inl (KeyError dtype)
         | Some token \<Rightarrow> get_schema_loop df rest (dict_set result column token))"

definition get_schema_from_df :: "dataframe \<Rightarrow> error + (string \<times> string) list" where
  "get_schema_from_df df = get_schema_loop df (columns df) []"

text \<open>The two results: \<^verbatim>\<open>dict(schema=schema)\<close> and \<^verbatim>\<open>dict(schema=schema, top_level_array=...)\<close>.\<close>

record csv_result =
  schema :: "(string \<times> string) list"

record json_result = csv_result +
  top_level_array :: bool

definition library_call :: "string + 'a \<Rightarrow> error + 'a" where
  "library_call r = (case r of Inl msg \<Rightarrow> Inl (LibraryError msg) | Inr x \<Rightarrow> Inr x)"

definition generate_schema_from_csv ::
    "env \<Rightarrow> string \<Rightarrow> string \<Rightarrow> string \<Rightarrow> int \<Rightarrow> (string \<times> string) list
      \<Rightarrow> error + csv_result" where
  "generate_schema_from_csv e s3_bucket_name prefix suffix limit override =
     (let s3_objects = list_non_empty_objects e s3_bucket_name prefix suffix limit
      in if s3_objects = [] then Inl FileNotFoundError
         else case library_call (try_all (\<lambda>obj. read_csv e (get_body e obj)) s3_objects) of
           Inl err \<Rightarrow> Inl err
         | Inr frames \<Rightarrow>
             (let df = concat_convert_dtypes e frames;
                  df = parse_datetime e df
              in case get_schema_from_df df of
                   Inl err \<Rightarrow> Inl err
                 | Inr inferred \<Rightarrow> Inr \<lparr>schema = dict_update inferred override\<rparr>))"

text \<open>
  The separator of the \<^verbatim>\<open>join\<close> in \<^verbatim>\<open>generate_schema_from_json\<close>: Python concatenates the
  adjacent literals \<^verbatim>\<open>"""\ ... """\<close> and \<^verbatim>\<open>"\n"\<close> before it applies \<^verbatim>\<open>.join\<close>.
\<close>

definition message_separator :: string where
  "message_separator =
     ''                Top level array has to be present in all files or none of them.''
     @ [CHR 0x0A]
     @ ''                Files without top level arrays:''
     @ [CHR 0x0A]
     @ ''                ''
     @ [CHR 0x0A]"

definition isinstance_list :: "json \<Rightarrow> bool" where
  "isinstance_list data = (case data of JArray xs \<Rightarrow> True | _ \<Rightarrow> False)"

definition full_name :: "s3_object \<Rightarrow> string" where
  "full_name obj = bucket_name obj @ ''/'' @ key obj"

definition files_without_arrays :: "bool list \<Rightarrow> s3_object list \<Rightarrow> string list" where
  "files_without_arrays is_list s3_objects =
     map (\<lambda>(is_array, obj). full_name obj)
       (filter (\<lambda>(is_array, obj). \<not> is_array) (zip is_list s3_objects))"

definition generate_schema_from_json ::
    "env \<Rightarrow> string \<Rightarrow> string \<Rightarrow> string \<Rightarrow> int \<Rightarrow> (string \<times> string) list
      \<Rightarrow> error + json_result" where
  "generate_schema_from_json e s3_bucket_name prefix suffix limit override =
     (let s3_objects = list_non_empty_objects e s3_bucket_name prefix suffix limit
      in if s3_objects = [] then Inl FileNotFoundError
         else case library_call (try_all (\<lambda>obj. json_loads e (get_body e obj)) s3_objects) of
           Inl err \<Rightarrow> Inl err
         | Inr json_data \<Rightarrow>
             (let is_list = map isinstance_list json_data
              in case (if list_all id is_list then Inr True
                       else if list_ex id is_list
                       then Inl (ValueError (dedent e
                              (py_join message_separator (files_without_arrays is_list s3_objects))))
                       else Inr False) of
                   Inl err \<Rightarrow> Inl err
                 | Inr top_level \<Rightarrow>
                     (case library_call (try_all (json_normalize e) json_data) of
                        Inl err \<Rightarrow> Inl err
                      | Inr frames \<Rightarrow>
                          (let df = concat_convert_dtypes e frames;
                               df = parse_datetime e df
                           in case get_schema_from_df df of
                                Inl err \<Rightarrow> Inl err
                              | Inr inferred \<Rightarrow>
                                  Inr \<lparr>schema = dict_update inferred override,
                                       top_level_array = top_level\<rparr>))))"

section \<open>Notions the statements use\<close>

text \<open>
  The dtype \<^verbatim>\<open>_get_schema_from_df\<close> looks up for a column: \<^verbatim>\<open>"object"\<close> when every cell of
  the column is null (\<^verbatim>\<open>is_empty\<close>), the dtype of the frame otherwise; and the token it
  stores for a dtype of the table.
\<close>

definition classified_dtype :: "dataframe \<Rightarrow> string \<Rightarrow> string \<Rightarrow> string" where
  "classified_dtype df column dt =
     (if length (rows df) = isna_sum (getitem df column) then ''object'' else dt)"

definition token_of :: "string \<Rightarrow> string" where
  "token_of dtype = (case map_of PANDAS_TO_SNOWFLAKE dtype of None \<Rightarrow> [] | Some t \<Rightarrow> t)"

text \<open>
  One round of the loop of \<^verbatim>\<open>_parse_datetime\<close>, and what the round leaves in the column:
  its dtype and its values. They are those of the series \<^verbatim>\<open>pd.to_datetime\<close> returns when
  the column has dtype \<^verbatim>\<open>string\<close> and the call does not raise, and the column's own
  otherwise.
\<close>

definition parse_step :: "env \<Rightarrow> dataframe \<Rightarrow> string \<Rightarrow> dataframe" where
  "parse_step e df column =
     (if dtype_of df column = ''string''
      then (case to_datetime e (getitem df column) of
              Some (dt, series) \<Rightarrow> setitem df column dt series
            | None \<Rightarrow> df)
      else df)"

definition promoted :: "env \<Rightarrow> dataframe \<Rightarrow> string \<Rightarrow> string \<times> cell list" where
  "promoted e df c =
     (if dtype_of df c = ''string''
      then (case to_datetime e (getitem df c) of
              Some (dt, series) \<Rightarrow> (dt, series)
            | None \<Rightarrow> (dtype_of df c, getitem df c))
      else (dtype_of df c, getitem df c))"

text \<open>
  The dtype the two passes together look up for a column of the concatenated frame:
  \<^verbatim>\<open>is_empty\<close> is computed on the column as \<^verbatim>\<open>_parse_datetime\<close> left it.
\<close>

definition final_dtype :: "env \<Rightarrow> dataframe \<Rightarrow> string \<Rightarrow> string" where
  "final_dtype e df c =
     (if length (rows df) = isna_sum (snd (promoted e df c)) then ''object''
      else fst (promoted e df c))"

definition merged_dtype :: "env \<Rightarrow> dataframe list \<Rightarrow> string \<Rightarrow> string" where
  "merged_dtype e frames c = final_dtype e (concat_convert_dtypes e frames) c"

text \<open>The position at which a value first stands in a list.\<close>

definition first_pos :: "'a list \<Rightarrow> 'a \<Rightarrow> nat" where
  "first_pos xs a = length (takeWhile (\<lambda>y. y \<noteq> a) xs)"

text \<open>
  The parts of the two entry points by name: the frames of the sampled CSV files, the
  decoded JSON documents and their frames, and the tail both entry points share.
\<close>

definition csv_frames :: "env \<Rightarrow> string \<Rightarrow> string \<Rightarrow> string \<Rightarrow> int \<Rightarrow> error + dataframe list" where
  "csv_frames e s3_bucket_name prefix suffix limit =
     library_call (try_all (\<lambda>obj. read_csv e (get_body e obj))
       (list_non_empty_objects e s3_bucket_name prefix suffix limit))"

definition json_documents :: "env \<Rightarrow> string \<Rightarrow> string \<Rightarrow> string \<Rightarrow> int \<Rightarrow> error + json list" where
  "json_documents e s3_bucket_name prefix suffix limit =
     library_call (try_all (\<lambda>obj. json_loads e (get_body e obj))
       (list_non_empty_objects e s3_bucket_name prefix suffix limit))"

definition json_frames :: "env \<Rightarrow> json list \<Rightarrow> error + dataframe list" where
  "json_frames e json_data = library_call (try_all (json_normalize e) json_data)"

definition json_sample :: "env \<Rightarrow> string \<Rightarrow> string \<Rightarrow> string \<Rightarrow> int \<Rightarrow> error + dataframe list" where
  "json_sample e s3_bucket_name prefix suffix limit =
     (case json_documents e s3_bucket_name prefix suffix limit of
        Inl err \<Rightarrow> Inl err
      | Inr json_data \<Rightarrow> json_frames e json_data)"

definition infer_schema :: "env \<Rightarrow> dataframe list \<Rightarrow> error + (string \<times> string) list" where
  "infer_schema e frames =
     get_schema_from_df (parse_datetime e (concat_convert_dtypes e frames))"

definition mixed_roots :: "json list \<Rightarrow> bool" where
  "mixed_roots json_data =
     (list_ex isinstance_list json_data \<and> list_ex (\<lambda>d. \<not> isinstance_list d) json_data)"

text \<open>
  One of the two entry points, called with these arguments, reads the frames \<open>frames\<close>
  off the sampled files and returns the schema \<open>sch\<close>.
\<close>

definition returns_schema ::
    "env \<Rightarrow> string \<Rightarrow> string \<Rightarrow> string \<Rightarrow> int \<Rightarrow> (string \<times> string) list
      \<Rightarrow> dataframe list \<Rightarrow> (string \<times> string) list \<Rightarrow> bool" where
  "returns_schema e s3_bucket_name prefix suffix limit override frames sch \<longleftrightarrow>
     (csv_frames e s3_bucket_name prefix suffix limit = Inr frames \<and>
      generate_schema_from_csv e s3_bucket_name prefix suffix limit override
        = Inr \<lparr>schema = sch\<rparr>) \<or>
     (json_sample e s3_bucket_name prefix suffix limit = Inr frames \<and>
      (\<exists>top_level. generate_schema_from_json e s3_bucket_name prefix suffix limit override
        = Inr \<lparr>schema = sch, top_level_array = top_level\<rparr>))"

text \<open>One of the two entry points, called with these arguments, returns the schema \<open>sch\<close>.\<close>

definition call_returns ::
    "env \<Rightarrow> string \<Rightarrow> string \<Rightarrow> string \<Rightarrow> int \<Rightarrow> (string \<times> string) list
      \<Rightarrow> (string \<times> string) list \<Rightarrow> bool" where
  "call_returns e s3_bucket_name prefix suffix limit override sch \<longleftrightarrow>
     (\<exists>r. generate_schema_from_csv e s3_bucket_name prefix suffix limit override = Inr r \<and>
          schema r = sch) \<or>
     (\<exists>r. generate_schema_from_json e s3_bucket_name prefix suffix limit override = Inr r \<and>
          schema r = sch)"

text \<open>The six tokens of \<open>PANDAS_TO_SNOWFLAKE\<close>.\<close>

definition fixed_tokens :: "string list" where
  "fixed_tokens =
     [''NUMBER(38,0)'', ''NUMBER(38,8)'', ''VARCHAR'', ''BOOLEAN'', ''VARIANT'',
      ''TIMESTAMP WITHOUT TIME ZONE'']"

section \<open>A sample bucket\<close>

text \<open>
  Two CSV files that pass the sampler, one that is empty and one of another suffix. The
  first file has the columns \<open>id\<close>, \<open>when\<close> and \<open>seen\<close>, the second \<open>id\<close>, \<open>note\<close> (its only
  value missing) and \<open>seen\<close>. The dtypes are those pandas 1.5 settles on for such columns.
\<close>

definition frame_a :: dataframe where
  "frame_a =
     \<lparr>columns = [(''id'', ''int64''), (''when'', ''object''), (''seen'', ''object'')],
      rows = [[(''id'', Val (JInt 1)), (''when'', Val (JString ''2020-01-01 00:00:00'')),
               (''seen'', Val (JString ''2020-01-01 00:00:00''))]]\<rparr>"

definition frame_b :: dataframe where
  "frame_b =
     \<lparr>columns = [(''id'', ''int64''), (''note'', ''float64''), (''seen'', ''object'')],
      rows = [[(''id'', Val (JInt 2)), (''note'', NA), (''seen'', Val (JString ''yesterday''))]]\<rparr>"

text \<open>
  In this bucket \<^verbatim>\<open>pd.to_datetime\<close> reads \<^verbatim>\<open>2020-01-01 00:00:00\<close> as a timestamp and raises
  on a series that holds any other value, \<^verbatim>\<open>yesterday\<close> for one.
\<close>

fun as_timestamp :: "cell \<Rightarrow> cell" where
  "as_timestamp (Val v) = Datetime v"
| "as_timestamp x = x"

definition demo_csv :: env where
  "demo_csv =
     \<lparr>list_objects_v2 = (\<lambda>b p l. if b = ''bucket'' \<and> p = ''data''
         then Some [(''data/a.csv'', 12), (''data/b.csv'', 7), (''data/empty.csv'', 0),
                    (''data/readme.txt'', 5)]
         else None),
      get_body = key,
      read_csv = (\<lambda>body. if body = ''data/a.csv'' then Inr frame_a
         else if body = ''data/b.csv'' then Inr frame_b else Inl ''EmptyDataError''),
      json_loads = (\<lambda>body. Inl ''JSONDecodeError''),
      json_normalize = (\<lambda>data. Inl ''NotImplementedError''),
      convert_dtype = (\<lambda>frames c. if c = ''id'' then ''Int64''
         else if c = ''when'' \<or> c = ''seen'' then ''string'' else ''Int64''),
      pd_to_datetime = (\<lambda>cells.
         if list_all (\<lambda>x. x = NA \<or> x = Val (JString ''2020-01-01 00:00:00'')) cells
         then Some (''datetime64[ns]'', as_timestamp) else None),
      dedent = id\<rparr>"

section \<open>The vocabulary of the specification\<close>

text \<open>
  The specification speaks of six abstract types; each stands for the pandas dtype of
  that name in \<open>PANDAS_TO_SNOWFLAKE\<close>, and \<open>spec_token\<close> is the token the specification
  gives it.
\<close>

datatype abstract_type = Boolean | Integer | Float | String | Timestamp | Variant

fun dtype_name :: "abstract_type \<Rightarrow> string" where
  "dtype_name Boolean = ''boolean''"
| "dtype_name Integer = ''Int64''"
| "dtype_name Float = ''Float64''"
| "dtype_name String = ''string''"
| "dtype_name Timestamp = ''datetime64[ns]''"
| "dtype_name Variant = ''object''"

fun spec_token :: "abstract_type \<Rightarrow> string" where
  "spec_token Integer = ''NUMBER(38,0)''"
| "spec_token Float = ''NUMBER(38,8)''"
| "spec_token String = ''VARCHAR''"
| "spec_token Boolean = ''BOOLEAN''"
| "spec_token Variant = ''VARIANT''"
| "spec_token Timestamp = ''TIMESTAMP WITHOUT TIME ZONE''"

text \<open>The sample bucket, were pandas to read the column \<open>when\<close> as timestamps with a zone.\<close>

definition demo_tz :: env where
  "demo_tz = demo_csv\<lparr>convert_dtype := (\<lambda>frames c.
     if c = ''when'' then ''datetime64[ns, UTC]'' else convert_dtype demo_csv frames c)\<rparr>"

text \<open>
  \<open>ys\<close> holds the values of \<open>xs\<close>, each once, in the order in which they first appear
  in \<open>xs\<close>.
\<close>

definition in_first_appearance_order :: "'a list \<Rightarrow> 'a list \<Rightarrow> bool" where
  "in_first_appearance_order xs ys \<longleftrightarrow>
     distinct ys \<and> set ys = set xs \<and>
     sorted_wrt (\<lambda>a b. first_pos xs a < first_pos xs b) ys"

section \<open>JSON flattening, from the specification\<close>

text \<open>
  Modelled from the spec: \<^verbatim>\<open>pd.json_normalize\<close> is code of pandas and is not under
  \<^verbatim>\<open>src/\<close>; these definitions follow section 4.2 of the specification. Nested objects
  are merged into their parent, the key of a leaf being the path segments joined by a
  dot; a value that is not an object is a leaf, an array as a whole; a null is a
  missing cell. A document whose root is an array gives one record for each element,
  any other document one record.
\<close>

fun flatten :: "string list \<Rightarrow> json \<Rightarrow> row" where
  "flatten segments (JObject members) =
     concat (map (\<lambda>kv. flatten (segments @ [fst kv]) (snd kv)) members)"
| "flatten segments JNull = [(py_join ''.'' segments, NA)]"
| "flatten segments v = [(py_join ''.'' segments, Val v)]"

definition flat_records :: "json \<Rightarrow> row list" where
  "flat_records data =
     (case data of JArray elements \<Rightarrow> map (flatten []) elements | _ \<Rightarrow> [flatten [] data])"

definition json_normalize_spec :: "json \<Rightarrow> string + dataframe" where
  "json_normalize_spec data =
     Inr \<lparr>columns = map (\<lambda>c. (c, ''object'')) (uniq (concat (map (map fst) (flat_records data)))),
          rows = flat_records data\<rparr>"

text \<open>
  A bucket of JSON files: under \<open>logs\<close> two documents with an object at the root and one
  with an array; under \<open>events\<close> the two objects only.
\<close>

definition demo_json :: env where
  "demo_json =
     \<lparr>list_objects_v2 = (\<lambda>b p l.
         if b = ''bucket'' \<and> p = ''logs''
         then Some [(''logs/a.json'', 20), (''logs/b.json'', 31), (''logs/c.json'', 9)]
         else if b = ''bucket'' \<and> p = ''events''
         then Some [(''logs/a.json'', 20), (''logs/b.json'', 31)]
         else None),
      get_body = key,
      read_csv = (\<lambda>body. Inl ''ParserError''),
      json_loads = (\<lambda>body.
         if body = ''logs/a.json'' then Inr (JObject [(''x'', JInt 1)])
         else if body = ''logs/b.json'' then Inr (JObject [(''x'', JInt 2)])
         else if body = ''logs/c.json'' then Inr (JArray [JObject [(''x'', JInt 3)]])
         else Inl ''JSONDecodeError''),
      json_normalize = json_normalize_spec,
      convert_dtype = (\<lambda>frames c. ''Int64''),
      pd_to_datetime = (\<lambda>cells. None),
      dedent = id\<rparr>"

text \<open>The root of the object's body, once decoded, is an array.\<close>

definition root_is_array :: "env \<Rightarrow> s3_object \<Rightarrow> bool" where
  "root_is_array e obj =
     (case json_loads e (get_body e obj) of Inr data \<Rightarrow> isinstance_list data | Inl err \<Rightarrow> False)"

text \<open>
  The files the claim calls non-conforming: those whose root is not an array when the
  arrays are the majority, those whose root is an array otherwise.
\<close>

definition non_conforming_files :: "env \<Rightarrow> s3_object list \<Rightarrow> string list" where
  "non_conforming_files e s3_objects =
     (if length (filter (root_is_array e) s3_objects)
         > length (filter (\<lambda>obj. \<not> root_is_array e obj) s3_objects)
      then map full_name (filter (\<lambda>obj. \<not> root_is_array e obj) s3_objects)
      else map full_name (filter (root_is_array e) s3_objects))"

text \<open>
  The key paths from the root of a value to its leaves: the values in it that are not
  objects.
\<close>

fun leaf_paths :: "json \<Rightarrow> string list list" where
  "leaf_paths (JObject members) =
     concat (map (\<lambda>kv. map ((#) (fst kv)) (leaf_paths (snd kv))) members)"
| "leaf_paths v = [[]]"

text \<open>The cells of a column of the concatenated frames; a cell that is an array.\<close>

definition merged_cells :: "dataframe list \<Rightarrow> string \<Rightarrow> cell list" where
  "merged_cells frames c = map (\<lambda>r. cell_at r c) (concat_rows frames)"

definition holds_array :: "cell list \<Rightarrow> bool" where
  "holds_array cells = list_ex (\<lambda>x. case x of Val (JArray xs) \<Rightarrow> True | _ \<Rightarrow> False) cells"

text \<open>
  Modelled from the spec: the dtype of a column is decided by pandas
  (\<^verbatim>\<open>convert_dtypes\<close>), not by code under \<^verbatim>\<open>src/\<close>. Section 4.4 of the specification: a
  value that is itself an array forces the whole column to Variant, which is the dtype
  \<^verbatim>\<open>object\<close>.
\<close>

definition array_columns_are_object :: "env \<Rightarrow> bool" where
  "array_columns_are_object e \<longleftrightarrow>
     (\<forall>frames c. holds_array (merged_cells frames c) \<longrightarrow> convert_dtype e frames c = ''object'')"

text \<open>
  One JSON file, an object with a nested object and an array, read as the
  specification says.
\<close>

definition demo_nested :: env where
  "demo_nested =
     \<lparr>list_objects_v2 = (\<lambda>b p l. Some [(''doc.json'', 64)]),
      get_body = key,
      read_csv = (\<lambda>body. Inl ''ParserError''),
      json_loads = (\<lambda>body. Inr (JObject
         [(''meta'', JObject [(''owner'', JString ''ops'')]),
          (''tags'', JArray [JString ''a'', JString ''b''])])),
      json_normalize = json_normalize_spec,
      convert_dtype = (\<lambda>frames c.
         if holds_array (merged_cells frames c) then ''object'' else ''string''),
      pd_to_datetime = (\<lambda>cells. None),
      dedent = id\<rparr>"

text \<open>
  One JSON file, an object whose member \<open>d\<close> is the empty string. pandas 1.5.2, the
  version \<^verbatim>\<open>setup.py\<close> asks for, reads the empty string as \<^verbatim>\<open>NaT\<close> under the format and does
  not raise.
\<close>

definition frame_blank :: dataframe where
  "frame_blank = \<lparr>columns = [(''d'', ''object'')], rows = [[(''d'', Val (JString ''''))]]\<rparr>"

definition demo_blank :: env where
  "demo_blank =
     \<lparr>list_objects_v2 = (\<lambda>b p l. Some [(''docs/blank.json'', 9)]),
      get_body = key,
      read_csv = (\<lambda>body. Inl ''ParserError''),
      json_loads = (\<lambda>body. Inr (JObject [(''d'', JString '''')])),
      json_normalize = (\<lambda>data. Inr frame_blank),
      convert_dtype = (\<lambda>frames c. ''string''),
      pd_to_datetime = (\<lambda>cells.
         if list_all (\<lambda>x. x = NA \<or> x = Val (JString '''')) cells
         then Some (''datetime64[ns]'', (\<lambda>x. NA)) else None),
      dedent = id\<rparr>"

section \<open>Containers, frames and the two passes\<close>

lemma map_of_dict_set: "map_of (dict_set d k v) = (map_of d)(k \<mapsto> v)"
  by (induction d) auto

lemma cell_at_dict_set: "cell_at (dict_set r c v) c' = (if c' = c then v else cell_at r c')"
  by (simp add: cell_at_def map_of_dict_set)

lemma keys_dict_set:
  "map fst (dict_set d k v) = (if k \<in> set (map fst d) then map fst d else map fst d @ [k])"
  by (induction d) force+

lemma dict_set_new: "k \<notin> set (map fst d) \<Longrightarrow> dict_set d k v = d @ [(k, v)]"
  by (induction d) auto

lemma dict_update_distinct:
  "distinct (map fst (d @ ps)) \<Longrightarrow> dict_update d ps = d @ ps"
proof (induction ps arbitrary: d)
  case Nil
  then show ?case by simp
next
  case (Cons p ps)
  obtain k v where p: "p = (k, v)" by (cases p)
  from Cons.prems p have new: "k \<notin> set (map fst d)" by auto
  then have "dict_set d k v = d @ [(k, v)]" by (rule dict_set_new)
  moreover from Cons.prems p have "distinct (map fst ((d @ [(k, v)]) @ ps))" by auto
  ultimately show ?case using Cons.IH [of "d @ [(k, v)]"] p by simp
qed

lemma get_schema_loop_Cons:
  "get_schema_loop df ((c, dt) # rest) acc =
     (case map_of PANDAS_TO_SNOWFLAKE (classified_dtype df c dt) of
        None \<Rightarrow> Inl (KeyError (classified_dtype df c dt))
      | Some t \<Rightarrow> get_schema_loop df rest (dict_set acc c t))"
  by (cases "length (rows df) = isna_sum (getitem df c)")
     (simp_all add: classified_dtype_def Let_def split: option.splits)

lemma get_schema_loop_Inr:
  "get_schema_loop df cols acc = Inr res \<longleftrightarrow>
     (\<forall>(c, dt) \<in> set cols. map_of PANDAS_TO_SNOWFLAKE (classified_dtype df c dt) \<noteq> None) \<and>
     res = dict_update acc (map (\<lambda>(c, dt). (c, token_of (classified_dtype df c dt))) cols)"
proof (induction cols arbitrary: acc)
  case Nil
  then show ?case by auto
next
  case (Cons p cols)
  obtain c dt where p: "p = (c, dt)" by (cases p)
  show ?case
    using Cons.IH
    by (auto simp: p get_schema_loop_Cons token_of_def simp del: get_schema_loop.simps
          split: option.splits)
qed

lemma get_schema_loop_Inl:
  "get_schema_loop df cols acc = Inl err \<Longrightarrow>
     \<exists>c dt. (c, dt) \<in> set cols \<and> err = KeyError (classified_dtype df c dt) \<and>
       map_of PANDAS_TO_SNOWFLAKE (classified_dtype df c dt) = None"
proof (induction cols arbitrary: acc)
  case Nil
  then show ?case by simp
next
  case (Cons p cols)
  obtain c dt where p: "p = (c, dt)" by (cases p)
  show ?case
  proof (cases "map_of PANDAS_TO_SNOWFLAKE (classified_dtype df c dt)")
    case None
    with Cons.prems p show ?thesis
      by (auto simp: get_schema_loop_Cons simp del: get_schema_loop.simps)
  next
    case (Some t)
    with Cons.prems p have "get_schema_loop df cols (dict_set acc c t) = Inl err"
      by (auto simp: get_schema_loop_Cons simp del: get_schema_loop.simps)
    from Cons.IH [OF this] show ?thesis by auto
  qed
qed

lemma parse_datetime_loop_step:
  "parse_datetime_loop e (c # rest) df = parse_datetime_loop e rest (parse_step e df c)"
  by (simp add: parse_step_def)

lemma length_getitem: "length (getitem df c) = length (rows df)"
  by (simp add: getitem_def)

lemma colnames_setitem: "colnames (setitem df c dt cells) = colnames df"
  by (auto simp: colnames_def setitem_def)

lemma length_rows_setitem:
  "length cells = length (rows df) \<Longrightarrow> length (rows (setitem df c dt cells)) = length (rows df)"
  by (simp add: setitem_def)

lemma getitem_setitem:
  assumes "length cells = length (rows df)"
  shows "getitem (setitem df c dt cells) c' = (if c' = c then cells else getitem df c')"
proof -
  have "map (\<lambda>r. cell_at r c') (map (\<lambda>(r, v). dict_set r c v) (zip rs cells))
        = (if c' = c then cells else map (\<lambda>r. cell_at r c') rs)"
    if "length cells = length rs" for rs
    using that by (induction rs cells rule: list_induct2') (auto simp: cell_at_dict_set)
  from this [OF assms] show ?thesis by (simp add: getitem_def setitem_def)
qed

lemma map_of_retype:
  "map_of (map (\<lambda>(n, d). if n = c then (n, dt) else (n, d)) cols) c' =
     (if c' = c then map_option (\<lambda>_. dt) (map_of cols c) else map_of cols c')"
  by (induction cols) auto

lemma dtype_of_setitem:
  "dtype_of (setitem df c dt cells) c' =
     (if c' = c \<and> c \<in> set (colnames df) then dt else dtype_of df c')"
proof (cases "map_of (columns df) c")
  case None
  then have "c \<notin> set (colnames df)"
    by (simp add: colnames_def map_of_eq_None_iff)
  with None show ?thesis
    by (simp add: dtype_of_def setitem_def map_of_retype)
next
  case (Some d)
  then have "c \<in> set (colnames df)"
    unfolding colnames_def by (metis map_of_eq_None_iff option.distinct(1) set_map)
  with Some show ?thesis
    by (simp add: dtype_of_def setitem_def map_of_retype)
qed

lemma to_datetime_Some:
  "to_datetime e cells = Some (dt, series) \<longleftrightarrow>
     (\<exists>convert. pd_to_datetime e cells = Some (dt, convert) \<and>
        series = map (\<lambda>x. if x = NA then NA else convert x) cells)"
  by (auto simp: to_datetime_def split: option.splits)

lemma length_to_datetime:
  "to_datetime e cells = Some (dt, series) \<Longrightarrow> length series = length cells"
  by (auto simp: to_datetime_Some)

lemma null_to_datetime:
  "to_datetime e cells = Some (dt, series) \<Longrightarrow> \<forall>x \<in> set cells. x = NA
   \<Longrightarrow> \<forall>x \<in> set series. x = NA"
  by (auto simp: to_datetime_Some)

lemma length_promoted: "length (snd (promoted e df c)) = length (rows df)"
  by (auto simp: promoted_def length_getitem length_to_datetime split: option.splits)

lemma promoted_unchanged:
  "dtype_of df c \<noteq> ''string'' \<or> to_datetime e (getitem df c) = None
   \<Longrightarrow> promoted e df c = (dtype_of df c, getitem df c)"
  by (auto simp: promoted_def)

lemma promoted_replaced:
  "dtype_of df c = ''string'' \<Longrightarrow> to_datetime e (getitem df c) = Some (dt, series)
   \<Longrightarrow> promoted e df c = (dt, series)"
  by (simp add: promoted_def)

lemma parse_step_cases:
  "parse_step e df c =
     (if dtype_of df c = ''string'' \<and> to_datetime e (getitem df c) \<noteq> None
      then setitem df c (fst (promoted e df c)) (snd (promoted e df c)) else df)"
  by (auto simp: parse_step_def promoted_def split: option.splits)

lemma colnames_parse_step: "colnames (parse_step e df c) = colnames df"
  by (simp add: parse_step_cases colnames_setitem)

lemma length_rows_parse_step: "length (rows (parse_step e df c)) = length (rows df)"
  by (simp add: parse_step_cases length_rows_setitem length_promoted)

lemma getitem_parse_step:
  "getitem (parse_step e df c) c' =
     (if c' = c then snd (promoted e df c) else getitem df c')"
proof (cases "dtype_of df c = ''string'' \<and> to_datetime e (getitem df c) \<noteq> None")
  case True
  then show ?thesis
    by (simp add: parse_step_cases getitem_setitem length_promoted)
next
  case False
  then have "dtype_of df c \<noteq> ''string'' \<or> to_datetime e (getitem df c) = None"
    by blast
  then have "promoted e df c = (dtype_of df c, getitem df c)"
    by (rule promoted_unchanged)
  with False show ?thesis
    by (auto simp: parse_step_cases)
qed

lemma dtype_of_parse_step:
  "dtype_of (parse_step e df c) c' =
     (if c' = c then fst (promoted e df c) else dtype_of df c')"
  if "c \<in> set (colnames df)"
proof (cases "dtype_of df c = ''string'' \<and> to_datetime e (getitem df c) \<noteq> None")
  case True
  with that show ?thesis
    by (simp add: parse_step_cases dtype_of_setitem)
next
  case False
  then have "dtype_of df c \<noteq> ''string'' \<or> to_datetime e (getitem df c) = None"
    by blast
  then have "promoted e df c = (dtype_of df c, getitem df c)"
    by (rule promoted_unchanged)
  with False show ?thesis
    by (auto simp: parse_step_cases)
qed

lemma promoted_parse_step:
  assumes "c \<in> set (colnames df)" and "c' \<noteq> c"
  shows "promoted e (parse_step e df c) c' = promoted e df c'"
proof -
  have same: "dtype_of (parse_step e df c) c' = dtype_of df c'"
    "getitem (parse_step e df c) c' = getitem df c'"
    using assms by (simp_all add: getitem_parse_step dtype_of_parse_step)
  show ?thesis
    unfolding promoted_def same ..
qed

lemma parse_datetime_loop_props:
  "distinct cs \<Longrightarrow> set cs \<subseteq> set (colnames df) \<Longrightarrow>
   colnames (parse_datetime_loop e cs df) = colnames df \<and>
   length (rows (parse_datetime_loop e cs df)) = length (rows df) \<and>
   (\<forall>c. getitem (parse_datetime_loop e cs df) c =
      (if c \<in> set cs then snd (promoted e df c) else getitem df c)) \<and>
   (\<forall>c. dtype_of (parse_datetime_loop e cs df) c =
      (if c \<in> set cs then fst (promoted e df c) else dtype_of df c))"
proof (induction cs arbitrary: df)
  case Nil
  then show ?case by simp
next
  case (Cons c0 cs)
  let ?df1 = "parse_step e df c0"
  have c0: "c0 \<in> set (colnames df)" and c0_new: "c0 \<notin> set cs" and d: "distinct cs"
    and sub: "set cs \<subseteq> set (colnames ?df1)"
    using Cons.prems by (auto simp: colnames_parse_step)
  note IH = Cons.IH [OF d sub]
  have same: "promoted e ?df1 c = promoted e df c" if "c \<in> set cs" for c
    using that c0 c0_new by (intro promoted_parse_step) auto
  show ?case
    unfolding parse_datetime_loop_step
    using IH c0 c0_new same
    by (auto simp: colnames_parse_step length_rows_parse_step getitem_parse_step
        dtype_of_parse_step)
qed

lemma columns_by_dtype_of:
  assumes "distinct (colnames df)"
  shows "columns df = map (\<lambda>n. (n, dtype_of df n)) (colnames df)"
proof -
  have "(fst p, dtype_of df (fst p)) = p" if "p \<in> set (columns df)" for p
  proof -
    from that have "(fst p, snd p) \<in> set (columns df)" by simp
    with assms have "map_of (columns df) (fst p) = Some (snd p)"
      unfolding colnames_def by (rule map_of_is_SomeI)
    then show ?thesis by (simp add: dtype_of_def)
  qed
  then have "map (\<lambda>p. (fst p, dtype_of df (fst p))) (columns df) = map (\<lambda>p. p) (columns df)"
    by (intro map_cong) auto
  then show ?thesis by (simp add: colnames_def comp_def)
qed

lemma parse_datetime_props:
  assumes "distinct (colnames df)"
  shows "colnames (parse_datetime e df) = colnames df"
    and "length (rows (parse_datetime e df)) = length (rows df)"
    and "c \<in> set (colnames df) \<Longrightarrow>
         getitem (parse_datetime e df) c = snd (promoted e df c)"
    and "c \<in> set (colnames df) \<Longrightarrow>
         dtype_of (parse_datetime e df) c = fst (promoted e df c)"
  using parse_datetime_loop_props [OF assms subset_refl, of e]
  by (simp_all add: parse_datetime_def)

lemma classified_parse_datetime:
  assumes "distinct (colnames df)" and "c \<in> set (colnames df)"
  shows "classified_dtype (parse_datetime e df) c (dtype_of (parse_datetime e df) c)
         = final_dtype e df c"
  using assms by (simp add: classified_dtype_def final_dtype_def parse_datetime_props)

lemma get_schema_parse_datetime:
  assumes d: "distinct (colnames df)"
  shows "get_schema_from_df (parse_datetime e df) = Inr res \<longleftrightarrow>
           (\<forall>c \<in> set (colnames df). map_of PANDAS_TO_SNOWFLAKE (final_dtype e df c) \<noteq> None) \<and>
           res = map (\<lambda>c. (c, token_of (final_dtype e df c))) (colnames df)"
proof -
  let ?df = "parse_datetime e df"
  have names: "colnames ?df = colnames df"
    using d by (rule parse_datetime_props)
  then have cols: "columns ?df = map (\<lambda>n. (n, dtype_of ?df n)) (colnames df)"
    using columns_by_dtype_of [of ?df] d by simp
  let ?ps = "map (\<lambda>(c, dt). (c, token_of (classified_dtype ?df c dt))) (columns ?df)"
  have ps: "?ps = map (\<lambda>c. (c, token_of (final_dtype e df c))) (colnames df)"
    unfolding cols using d by (simp add: comp_def classified_parse_datetime)
  then have "map fst ?ps = colnames df"
    by (simp add: comp_def)
  with d have "distinct (map fst ([] @ ?ps))" by simp
  then have upd: "dict_update [] ?ps = ?ps"
    using dict_update_distinct [of "[]" ?ps] by simp
  have all: "(\<forall>(c, dt) \<in> set (columns ?df).
               map_of PANDAS_TO_SNOWFLAKE (classified_dtype ?df c dt) \<noteq> None)
             \<longleftrightarrow> (\<forall>c \<in> set (colnames df). map_of PANDAS_TO_SNOWFLAKE (final_dtype e df c) \<noteq> None)"
    unfolding cols using d by (simp add: classified_parse_datetime)
  note upd' = upd [unfolded ps]
  show ?thesis
    unfolding get_schema_from_df_def get_schema_loop_Inr all ps upd' ..
qed

lemma get_schema_parse_datetime_Inl:
  assumes d: "distinct (colnames df)"
    and "get_schema_from_df (parse_datetime e df) = Inl err"
  shows "\<exists>c \<in> set (colnames df). err = KeyError (final_dtype e df c) \<and>
           map_of PANDAS_TO_SNOWFLAKE (final_dtype e df c) = None"
proof -
  let ?df = "parse_datetime e df"
  have names: "colnames ?df = colnames df"
    using d by (rule parse_datetime_props)
  then have cols: "columns ?df = map (\<lambda>n. (n, dtype_of ?df n)) (colnames df)"
    using columns_by_dtype_of [of ?df] d by simp
  from assms(2) obtain c dt where in_cols: "(c, dt) \<in> set (columns ?df)"
    and err: "err = KeyError (classified_dtype ?df c dt)"
    and none: "map_of PANDAS_TO_SNOWFLAKE (classified_dtype ?df c dt) = None"
    unfolding get_schema_from_df_def by (blast dest: get_schema_loop_Inl)
  from in_cols have c: "c \<in> set (colnames df)" and dt: "dt = dtype_of ?df c"
    unfolding cols by auto
  from err none show ?thesis
    unfolding dt classified_parse_datetime [OF d c] using c by blast
qed

lemma set_uniq: "set (uniq xs) = set xs"
  by (induction xs) auto

lemma distinct_uniq: "distinct (uniq xs)"
  by (induction xs) (auto simp: set_uniq)

lemma first_pos_Cons:
  "first_pos (x # xs) a = (if a = x then 0 else Suc (first_pos xs a))"
  by (simp add: first_pos_def)

lemma sorted_uniq: "sorted_wrt (\<lambda>a b. first_pos xs a < first_pos xs b) (uniq xs)"
proof (induction xs)
  case Nil
  then show ?case by simp
next
  case (Cons x xs)
  have "sorted_wrt (\<lambda>a b. first_pos xs a < first_pos xs b) (filter (\<lambda>y. y \<noteq> x) (uniq xs))"
    using Cons.IH by (rule sorted_wrt_filter)
  then have "sorted_wrt (\<lambda>a b. first_pos (x # xs) a < first_pos (x # xs) b)
               (filter (\<lambda>y. y \<noteq> x) (uniq xs))"
    by (rule sorted_wrt_mono_rel [rotated]) (simp add: first_pos_Cons)
  then show ?case by (simp add: first_pos_Cons)
qed

lemma colnames_concat: "colnames (concat_convert_dtypes e frames) = concat_columns frames"
  by (simp add: colnames_def concat_convert_dtypes_def comp_def)

lemma distinct_concat_columns: "distinct (concat_columns frames)"
  by (simp add: concat_columns_def distinct_uniq)

lemma set_concat_columns: "set (concat_columns frames) = (\<Union>f \<in> set frames. set (colnames f))"
  by (simp add: concat_columns_def set_uniq)

lemma dtype_of_concat:
  "c \<in> set (concat_columns frames) \<Longrightarrow>
   dtype_of (concat_convert_dtypes e frames) c = convert_dtype e frames c"
proof -
  have "c \<in> set cs \<Longrightarrow> map_of (map (\<lambda>c. (c, g c)) cs) c = Some (g c)" for cs and g :: "string \<Rightarrow> string"
    by (induction cs) auto
  then show "c \<in> set (concat_columns frames) \<Longrightarrow> ?thesis"
    by (simp add: dtype_of_def concat_convert_dtypes_def)
qed

lemma library_call_simps:
  "library_call (Inl m) = Inl (LibraryError m)" "library_call (Inr x) = Inr x"
  by (simp_all add: library_call_def)

lemma library_call_Inl: "library_call x = Inl err \<Longrightarrow> \<exists>m. err = LibraryError m"
  by (cases x) (auto simp: library_call_def)

lemma infer_schema_Inr:
  "infer_schema e frames = Inr res \<longleftrightarrow>
     (\<forall>c \<in> set (concat_columns frames).
        map_of PANDAS_TO_SNOWFLAKE (merged_dtype e frames c) \<noteq> None) \<and>
     res = map (\<lambda>c. (c, token_of (merged_dtype e frames c))) (concat_columns frames)"
  unfolding infer_schema_def merged_dtype_def
  using get_schema_parse_datetime [of "concat_convert_dtypes e frames" e res]
  by (simp add: colnames_concat distinct_concat_columns)

lemma infer_schema_Inl:
  "infer_schema e frames = Inl err \<Longrightarrow>
     \<exists>c \<in> set (concat_columns frames). err = KeyError (merged_dtype e frames c) \<and>
       map_of PANDAS_TO_SNOWFLAKE (merged_dtype e frames c) = None"
  unfolding infer_schema_def merged_dtype_def
  using get_schema_parse_datetime_Inl [of "concat_convert_dtypes e frames" e err]
  by (simp add: colnames_concat distinct_concat_columns)

lemma csv_unfold:
  "generate_schema_from_csv e b p s l ov =
     (if list_non_empty_objects e b p s l = [] then Inl FileNotFoundError
      else case csv_frames e b p s l of
        Inl err \<Rightarrow> Inl err
      | Inr frames \<Rightarrow>
          (case infer_schema e frames of
             Inl err \<Rightarrow> Inl err
           | Inr inferred \<Rightarrow> Inr \<lparr>schema = dict_update inferred ov\<rparr>))"
  by (auto simp: generate_schema_from_csv_def csv_frames_def infer_schema_def Let_def
      split: sum.splits)

lemma json_unfold:
  "generate_schema_from_json e b p s l ov =
     (if list_non_empty_objects e b p s l = [] then Inl FileNotFoundError
      else case json_documents e b p s l of
        Inl err \<Rightarrow> Inl err
      | Inr json_data \<Rightarrow>
          if mixed_roots json_data
          then Inl (ValueError (dedent e (py_join message_separator
                 (files_without_arrays (map isinstance_list json_data)
                    (list_non_empty_objects e b p s l)))))
          else (case json_frames e json_data of
             Inl err \<Rightarrow> Inl err
           | Inr frames \<Rightarrow>
               (case infer_schema e frames of
                  Inl err \<Rightarrow> Inl err
                | Inr inferred \<Rightarrow>
                    Inr \<lparr>schema = dict_update inferred ov,
                         top_level_array = list_all isinstance_list json_data\<rparr>)))"
proof -
  have a: "list_all id (map isinstance_list ds) = list_all isinstance_list ds" for ds
    by (induction ds) auto
  have b: "list_ex id (map isinstance_list ds) = list_ex isinstance_list ds" for ds
    by (induction ds) auto
  have c: "mixed_roots ds \<longleftrightarrow> \<not> list_all isinstance_list ds \<and> list_ex isinstance_list ds" for ds
    by (auto simp: mixed_roots_def list_all_iff list_ex_iff)
  have d: "\<not> list_all isinstance_list ds \<Longrightarrow> \<not> list_ex isinstance_list ds
           \<Longrightarrow> list_all isinstance_list ds = False" for ds
    by simp
  show ?thesis
    by (auto simp: generate_schema_from_json_def json_documents_def json_frames_def
        infer_schema_def Let_def a b c split: sum.splits)
qed

section \<open>The sample bucket, evaluated\<close>

lemma demo_objects:
  "list_non_empty_objects demo_csv ''bucket'' ''data'' ''csv'' 10 =
     [\<lparr>bucket_name = ''bucket'', key = ''data/a.csv''\<rparr>,
      \<lparr>bucket_name = ''bucket'', key = ''data/b.csv''\<rparr>]"
  by (simp add: list_non_empty_objects_def demo_csv_def endswith_def)

lemma demo_frames:
  "csv_frames demo_csv ''bucket'' ''data'' ''csv'' 10 = Inr [frame_a, frame_b]"
  by (simp add: csv_frames_def demo_objects library_call_def) (simp add: demo_csv_def)

lemma demo_direct:
  "generate_schema_from_csv demo_csv ''bucket'' ''data'' ''csv'' 10 [] =
     Inr \<lparr>schema = [(''id'', ''NUMBER(38,0)''), (''when'', ''TIMESTAMP WITHOUT TIME ZONE''),
                     (''seen'', ''VARCHAR''), (''note'', ''VARIANT'')]\<rparr>"
  by (simp add: generate_schema_from_csv_def demo_objects library_call_def)
     (simp add: demo_csv_def frame_a_def frame_b_def concat_convert_dtypes_def
        concat_columns_def concat_rows_def colnames_def reindex_def parse_datetime_def
        dtype_of_def getitem_def cell_at_def to_datetime_def setitem_def
        get_schema_from_df_def isna_sum_def PANDAS_TO_SNOWFLAKE_def Let_def)

section \<open>What a returned schema is\<close>

lemma returns_schema_infer:
  assumes "returns_schema e b p s l ov frames sch"
  shows "\<exists>inferred. infer_schema e frames = Inr inferred \<and> sch = dict_update inferred ov"
  using assms unfolding returns_schema_def
proof (elim disjE conjE exE)
  assume "csv_frames e b p s l = Inr frames"
    and "generate_schema_from_csv e b p s l ov = Inr \<lparr>schema = sch\<rparr>"
  then show ?thesis
    by (auto simp: csv_unfold split: if_splits sum.splits)
next
  fix tl
  assume "json_sample e b p s l = Inr frames"
    and "generate_schema_from_json e b p s l ov = Inr \<lparr>schema = sch, top_level_array = tl\<rparr>"
  then show ?thesis
    by (auto simp: json_unfold json_sample_def split: if_splits sum.splits)
qed

lemma returns_schema_shape:
  assumes "returns_schema e b p s l ov frames sch"
  shows "sch = dict_update
           (map (\<lambda>c. (c, token_of (merged_dtype e frames c))) (concat_columns frames)) ov"
    and "\<forall>c \<in> set (concat_columns frames).
           map_of PANDAS_TO_SNOWFLAKE (merged_dtype e frames c) \<noteq> None"
  using returns_schema_infer [OF assms] by (auto simp: infer_schema_Inr)

lemma set_dict_set: "set (dict_set d k v) \<subseteq> insert (k, v) (set d)"
  by (induction d) (auto split: if_splits)

lemma set_dict_update: "set (dict_update d ps) \<subseteq> set d \<union> set ps"
proof (induction ps arbitrary: d)
  case Nil
  then show ?case by simp
next
  case (Cons p ps)
  obtain k v where p: "p = (k, v)" by (cases p)
  have "set (dict_update (dict_set d k v) ps) \<subseteq> set (dict_set d k v) \<union> set ps"
    by (rule Cons.IH)
  with set_dict_set [of d k v] show ?case by (auto simp: p)
qed

lemma map_of_dict_update: "map_of (dict_update d ps) = map_of d ++ map_of (rev ps)"
proof (induction ps arbitrary: d)
  case Nil
  then show ?case by simp
next
  case (Cons p ps)
  obtain k v where p: "p = (k, v)" by (cases p)
  have "map_of (dict_update (dict_set d k v) ps) = map_of (dict_set d k v) ++ map_of (rev ps)"
    by (rule Cons.IH)
  also have "\<dots> = map_of d ++ ([k \<mapsto> v] ++ map_of (rev ps))"
    by (simp add: map_of_dict_set map_add_upd_left fun_eq_iff map_add_def split: option.splits)
  finally show ?case by (simp add: p)
qed

lemma token_of_fixed:
  "map_of PANDAS_TO_SNOWFLAKE d \<noteq> None \<Longrightarrow> token_of d \<in> set fixed_tokens"
  by (auto simp: token_of_def PANDAS_TO_SNOWFLAKE_def fixed_tokens_def split: if_splits)

lemma demo_returns:
  "returns_schema demo_csv ''bucket'' ''data'' ''csv'' 10 [] [frame_a, frame_b]
     [(''id'', ''NUMBER(38,0)''), (''when'', ''TIMESTAMP WITHOUT TIME ZONE''),
      (''seen'', ''VARCHAR''), (''note'', ''VARIANT'')]"
  by (simp add: returns_schema_def demo_frames demo_direct)

lemma map_of_filter_keys:
  "map_of (filter (\<lambda>(k, v). k \<in> S) r) c = (if c \<in> S then map_of r c else None)"
  by (induction r) auto

lemma cell_at_reindex:
  "cell_at (reindex names r) c = (if c \<in> set names then cell_at r c else NA)"
  by (simp add: cell_at_def reindex_def map_of_filter_keys)

lemma getitem_concat:
  "getitem (concat_convert_dtypes e frames) c =
     concat (map (\<lambda>f. map (\<lambda>r. if c \<in> set (colnames f) then cell_at r c else NA) (rows f)) frames)"
  by (induction frames)
     (simp_all add: getitem_def concat_convert_dtypes_def concat_rows_def cell_at_reindex
       comp_def)

lemma isna_sum_eq_length: "isna_sum cells = length cells \<longleftrightarrow> (\<forall>x \<in> set cells. x = NA)"
proof -
  have "length (filter (\<lambda>x. x = NA) cells) = length cells
        \<longleftrightarrow> length (filter (\<lambda>x. \<not> x = NA) cells) = 0"
    using sum_length_filter_compl [of "\<lambda>x. x = NA" cells] by arith
  then show ?thesis by (simp add: isna_sum_def filter_empty_conv)
qed

lemma is_empty_iff:
  "length (rows df) = isna_sum (getitem df c) \<longleftrightarrow> (\<forall>x \<in> set (getitem df c). x = NA)"
  using isna_sum_eq_length [of "getitem df c"] by (auto simp: length_getitem)

lemma map_of_keyed: "c \<in> set cs \<Longrightarrow> map_of (map (\<lambda>c. (c, g c)) cs) c = Some (g c)"
  by (induction cs) auto

lemma map_of_token_of:
  "map_of PANDAS_TO_SNOWFLAKE d \<noteq> None \<Longrightarrow> map_of PANDAS_TO_SNOWFLAKE d = Some (token_of d)"
  by (auto simp: token_of_def)

lemma schema_lookup:
  assumes "returns_schema e b p s l ov frames sch"
    and c: "c \<in> set (concat_columns frames)" and ov: "c \<notin> fst ` set ov"
  shows "map_of sch c = map_of PANDAS_TO_SNOWFLAKE (merged_dtype e frames c)"
proof -
  let ?inferred = "map (\<lambda>c. (c, token_of (merged_dtype e frames c))) (concat_columns frames)"
  from returns_schema_shape [OF assms(1)] have sch: "sch = dict_update ?inferred ov"
    and ok: "map_of PANDAS_TO_SNOWFLAKE (merged_dtype e frames c) \<noteq> None"
    using c by simp_all
  from ov have "map_of (rev ov) c = None"
    by (simp add: map_of_eq_None_iff)
  then have "map_of sch c = map_of ?inferred c"
    by (simp add: sch map_of_dict_update map_add_def)
  also have "\<dots> = Some (token_of (merged_dtype e frames c))"
    using c by (rule map_of_keyed)
  finally show ?thesis using map_of_token_of [OF ok] by simp
qed

lemma final_dtype_unchanged:
  assumes "\<exists>x \<in> set (getitem df c). x \<noteq> NA"
    and "dtype_of df c \<noteq> ''string'' \<or> to_datetime e (getitem df c) = None"
  shows "final_dtype e df c = dtype_of df c"
  using assms by (auto simp: final_dtype_def promoted_unchanged is_empty_iff)

lemma final_dtype_replaced:
  assumes "dtype_of df c = ''string''" and "to_datetime e (getitem df c) = Some (dt, series)"
  shows "final_dtype e df c = (if \<forall>x \<in> set series. x = NA then ''object'' else dt)"
proof -
  have "length series = length (rows df)"
    using length_to_datetime [OF assms(2)] by (simp add: length_getitem)
  then have "length (rows df) = isna_sum series \<longleftrightarrow> (\<forall>x \<in> set series. x = NA)"
    using isna_sum_eq_length [of series] by auto
  then show ?thesis
    by (simp add: final_dtype_def promoted_replaced [OF assms])
qed

lemma final_dtype_all_null:
  assumes "\<forall>x \<in> set (getitem df c). x = NA"
  shows "final_dtype e df c = ''object''"
proof -
  have "\<forall>x \<in> set (snd (promoted e df c)). x = NA"
    using assms by (auto simp: promoted_def to_datetime_Some split: option.splits)
  then have "isna_sum (snd (promoted e df c)) = length (snd (promoted e df c))"
    by (simp add: isna_sum_eq_length)
  then show ?thesis
    by (simp add: final_dtype_def length_promoted)
qed

lemma demo_merged:
  "concat_convert_dtypes demo_csv [frame_a, frame_b] =
     \<lparr>columns = [(''id'', ''Int64''), (''when'', ''string''), (''seen'', ''string''),
                 (''note'', ''Int64'')],
      rows = [[(''id'', Val (JInt 1)), (''when'', Val (JString ''2020-01-01 00:00:00'')),
               (''seen'', Val (JString ''2020-01-01 00:00:00''))],
              [(''id'', Val (JInt 2)), (''note'', NA), (''seen'', Val (JString ''yesterday''))]]\<rparr>"
  by (simp add: concat_convert_dtypes_def concat_columns_def concat_rows_def colnames_def
      reindex_def frame_a_def frame_b_def)
     (simp add: demo_csv_def)

lemma get_schema_unmapped:
  assumes "(c, dt) \<in> set (columns df)"
    and "map_of PANDAS_TO_SNOWFLAKE (classified_dtype df c dt) = None"
  shows "\<exists>d. get_schema_from_df df = Inl (KeyError d) \<and> map_of PANDAS_TO_SNOWFLAKE d = None"
proof (cases "get_schema_from_df df")
  case (Inl err)
  then show ?thesis
    unfolding get_schema_from_df_def by (blast dest: get_schema_loop_Inl)
next
  case (Inr res)
  then have "\<forall>(c, dt) \<in> set (columns df).
      map_of PANDAS_TO_SNOWFLAKE (classified_dtype df c dt) \<noteq> None"
    unfolding get_schema_from_df_def get_schema_loop_Inr by simp
  with assms show ?thesis by fastforce
qed

lemma get_schema_mapped:
  assumes "get_schema_from_df df = Inr res" and "(c, t) \<in> set res"
  shows "\<exists>dt. (c, dt) \<in> set (columns df) \<and>
           map_of PANDAS_TO_SNOWFLAKE (classified_dtype df c dt) = Some t"
proof -
  let ?ps = "map (\<lambda>(c, dt). (c, token_of (classified_dtype df c dt))) (columns df)"
  from assms(1) have ok: "\<forall>(c, dt) \<in> set (columns df).
      map_of PANDAS_TO_SNOWFLAKE (classified_dtype df c dt) \<noteq> None"
    and res: "res = dict_update [] ?ps"
    unfolding get_schema_from_df_def get_schema_loop_Inr by simp_all
  from assms(2) res set_dict_update [of "[]" ?ps] have "(c, t) \<in> set ?ps" by auto
  then obtain dt where dt: "(c, dt) \<in> set (columns df)"
    and t: "t = token_of (classified_dtype df c dt)" by auto
  from ok dt have "map_of PANDAS_TO_SNOWFLAKE (classified_dtype df c dt) \<noteq> None" by blast
  from map_of_token_of [OF this] dt t show ?thesis by blast
qed

lemma demo_tz_objects:
  "list_non_empty_objects demo_tz ''bucket'' ''data'' ''csv'' 10 =
     [\<lparr>bucket_name = ''bucket'', key = ''data/a.csv''\<rparr>,
      \<lparr>bucket_name = ''bucket'', key = ''data/b.csv''\<rparr>]"
  by (simp add: list_non_empty_objects_def demo_tz_def demo_csv_def endswith_def)

lemma demo_tz_frames:
  "csv_frames demo_tz ''bucket'' ''data'' ''csv'' 10 = Inr [frame_a, frame_b]"
  by (simp add: csv_frames_def demo_tz_objects library_call_def)
     (simp add: demo_tz_def demo_csv_def)

lemma demo_tz_schema:
  "get_schema_from_df (parse_datetime demo_tz (concat_convert_dtypes demo_tz [frame_a, frame_b]))
     = Inl (KeyError ''datetime64[ns, UTC]'')"
  by (simp add: demo_tz_def demo_csv_def frame_a_def frame_b_def concat_convert_dtypes_def
        concat_columns_def concat_rows_def colnames_def reindex_def parse_datetime_def
        dtype_of_def getitem_def cell_at_def to_datetime_def setitem_def
        get_schema_from_df_def isna_sum_def PANDAS_TO_SNOWFLAKE_def Let_def)

lemma uniq_first_appearance: "in_first_appearance_order xs (uniq xs)"
  by (simp add: in_first_appearance_order_def distinct_uniq set_uniq sorted_uniq)

lemma filter_uniq: "filter P (uniq xs) = uniq (filter P xs)"
proof (induction xs)
  case Nil
  then show ?case by simp
next
  case (Cons x xs)
  show ?case
  proof (cases "P x")
    case True
    have "filter P (filter (\<lambda>y. y \<noteq> x) (uniq xs)) = filter (\<lambda>y. y \<noteq> x) (filter P (uniq xs))"
      by (simp add: conj_commute)
    with True Cons show ?thesis by simp
  next
    case False
    have "filter P (filter (\<lambda>y. y \<noteq> x) (uniq xs)) = filter P (uniq xs)"
      using False by (auto intro: filter_cong)
    with False Cons show ?thesis by simp
  qed
qed

lemma keys_dict_update:
  "map fst (dict_update d ps) =
     map fst d @ uniq (filter (\<lambda>k. k \<notin> set (map fst d)) (map fst ps))"
proof (induction ps arbitrary: d)
  case Nil
  then show ?case by simp
next
  case (Cons p ps)
  obtain k v where p: "p = (k, v)" by (cases p)
  note IH = Cons.IH [of "dict_set d k v"]
  show ?case
  proof (cases "k \<in> set (map fst d)")
    case True
    then have "map fst (dict_set d k v) = map fst d" by (simp add: keys_dict_set)
    with IH True show ?thesis by (simp add: p)
  next
    case False
    then have keys: "map fst (dict_set d k v) = map fst d @ [k]" by (simp add: keys_dict_set)
    have "filter (\<lambda>x. x \<notin> set (map fst d @ [k])) (map fst ps)
          = filter (\<lambda>y. y \<noteq> k) (filter (\<lambda>x. x \<notin> set (map fst d)) (map fst ps))"
      by (auto intro: filter_cong)
    then have "uniq (filter (\<lambda>x. x \<notin> set (map fst d @ [k])) (map fst ps))
          = filter (\<lambda>y. y \<noteq> k) (uniq (filter (\<lambda>x. x \<notin> set (map fst d)) (map fst ps)))"
      by (simp only: filter_uniq)
    with IH False keys show ?thesis by (simp add: p)
  qed
qed

lemma distinct_keys_dict_update:
  "distinct (map fst d) \<Longrightarrow> distinct (map fst (dict_update d ps))"
  by (auto simp: keys_dict_update distinct_uniq set_uniq)

lemma assoc_eqI:
  assumes "distinct (map fst xs)" and "map fst xs = map fst ys" and "map_of xs = map_of ys"
  shows "xs = ys"
proof -
  have expand: "zs = map (\<lambda>k. (k, the (map_of zs k))) (map fst zs)"
    if "distinct (map fst zs)" for zs :: "('a \<times> 'b) list"
  proof -
    have "(fst p, the (map_of zs (fst p))) = p" if "p \<in> set zs" for p
    proof -
      from that have "(fst p, snd p) \<in> set zs" by simp
      with \<open>distinct (map fst zs)\<close> have "map_of zs (fst p) = Some (snd p)"
        by (rule map_of_is_SomeI)
      then show ?thesis by simp
    qed
    then have "map (\<lambda>p. (fst p, the (map_of zs (fst p)))) zs = map (\<lambda>p. p) zs"
      by (intro map_cong) auto
    then show ?thesis by (simp add: comp_def)
  qed
  from assms(1,2) have "distinct (map fst ys)" by simp
  from expand [OF assms(1)] expand [OF this] assms(2,3) show ?thesis by simp
qed

lemma dict_update_idem:
  assumes "distinct (map fst d)"
  shows "dict_update (dict_update d ps) ps = dict_update d ps"
proof (rule assoc_eqI)
  let ?d' = "dict_update d ps"
  show "distinct (map fst (dict_update ?d' ps))"
    using assms by (intro distinct_keys_dict_update)
  have "filter (\<lambda>k. k \<notin> set (map fst ?d')) (map fst ps) = []"
    by (auto simp: keys_dict_update set_uniq filter_empty_conv)
  then show "map fst (dict_update ?d' ps) = map fst ?d'"
    using keys_dict_update [of ?d' ps] by simp
  show "map_of (dict_update ?d' ps) = map_of ?d'"
    by (simp add: map_of_dict_update fun_eq_iff map_add_def split: option.splits)
qed

lemma inferred_keys:
  assumes "returns_schema e b p s l ov frames sch"
  shows "\<exists>inferred. sch = dict_update inferred ov \<and> map fst inferred = concat_columns frames"
  using returns_schema_shape(1) [OF assms] by (auto simp: comp_def)

lemma demo_result:
  "generate_schema_from_csv demo_csv ''bucket'' ''data'' ''csv'' 10 ov =
     Inr \<lparr>schema = dict_update
       [(''id'', ''NUMBER(38,0)''), (''when'', ''TIMESTAMP WITHOUT TIME ZONE''),
        (''seen'', ''VARCHAR''), (''note'', ''VARIANT'')] ov\<rparr>"
proof -
  have "infer_schema demo_csv [frame_a, frame_b] =
          Inr [(''id'', ''NUMBER(38,0)''), (''when'', ''TIMESTAMP WITHOUT TIME ZONE''),
               (''seen'', ''VARCHAR''), (''note'', ''VARIANT'')]"
    using demo_direct
    by (simp add: csv_unfold demo_objects demo_frames split: sum.splits)
  then show ?thesis
    by (simp add: csv_unfold demo_objects demo_frames)
qed

lemma try_all_Inr: "try_all f xs = Inr ys \<Longrightarrow> map f xs = map Inr ys"
proof (induction xs arbitrary: ys)
  case Nil
  then show ?case by simp
next
  case (Cons x xs)
  then show ?case by (auto split: sum.splits)
qed

lemma files_without_arrays_decoded:
  assumes "map (\<lambda>obj. json_loads e (get_body e obj)) s3_objects = map Inr json_data"
  shows "files_without_arrays (map isinstance_list json_data) s3_objects =
           map full_name (filter (\<lambda>obj. \<not> root_is_array e obj) s3_objects)"
  using assms
proof (induction s3_objects arbitrary: json_data)
  case Nil
  then show ?case by (simp add: files_without_arrays_def)
next
  case (Cons obj objs)
  then obtain d ds where json_data: "json_data = d # ds"
    and d: "json_loads e (get_body e obj) = Inr d"
    and ds: "map (\<lambda>obj. json_loads e (get_body e obj)) objs = map Inr ds"
    by (cases json_data) auto
  from Cons.IH [OF ds] d show ?case
    by (simp add: json_data files_without_arrays_def root_is_array_def)
qed

lemma json_documents_Inr:
  assumes "json_documents e b p s l = Inr json_data"
  shows "map (\<lambda>obj. json_loads e (get_body e obj)) (list_non_empty_objects e b p s l)
           = map Inr json_data"
proof -
  from assms have "try_all (\<lambda>obj. json_loads e (get_body e obj))
      (list_non_empty_objects e b p s l) = Inr json_data"
    by (auto simp: json_documents_def library_call_def split: sum.splits)
  then show ?thesis by (rule try_all_Inr)
qed

lemma mixed_roots_iff:
  "mixed_roots json_data \<longleftrightarrow>
     (\<exists>d \<in> set json_data. isinstance_list d) \<and> (\<exists>d \<in> set json_data. \<not> isinstance_list d)"
  by (simp add: mixed_roots_def list_ex_iff)

lemma demo_json_objects:
  "list_non_empty_objects demo_json ''bucket'' ''logs'' ''json'' 10 =
     [\<lparr>bucket_name = ''bucket'', key = ''logs/a.json''\<rparr>,
      \<lparr>bucket_name = ''bucket'', key = ''logs/b.json''\<rparr>,
      \<lparr>bucket_name = ''bucket'', key = ''logs/c.json''\<rparr>]"
  "list_non_empty_objects demo_json ''bucket'' ''events'' ''json'' 10 =
     [\<lparr>bucket_name = ''bucket'', key = ''logs/a.json''\<rparr>,
      \<lparr>bucket_name = ''bucket'', key = ''logs/b.json''\<rparr>]"
  by (simp_all add: list_non_empty_objects_def demo_json_def endswith_def)

lemma demo_json_documents:
  "json_documents demo_json ''bucket'' ''logs'' ''json'' 10 =
     Inr [JObject [(''x'', JInt 1)], JObject [(''x'', JInt 2)], JArray [JObject [(''x'', JInt 3)]]]"
  "json_documents demo_json ''bucket'' ''events'' ''json'' 10 =
     Inr [JObject [(''x'', JInt 1)], JObject [(''x'', JInt 2)]]"
  by (simp_all add: json_documents_def demo_json_objects library_call_def)
     (simp_all add: demo_json_def)

lemma demo_json_roots:
  "\<not> root_is_array demo_json \<lparr>bucket_name = ''bucket'', key = ''logs/a.json''\<rparr>"
  "\<not> root_is_array demo_json \<lparr>bucket_name = ''bucket'', key = ''logs/b.json''\<rparr>"
  "root_is_array demo_json \<lparr>bucket_name = ''bucket'', key = ''logs/c.json''\<rparr>"
  by (simp_all add: root_is_array_def demo_json_def isinstance_list_def)

lemma demo_json_mixed:
  "generate_schema_from_json demo_json ''bucket'' ''logs'' ''json'' 10 [] =
     Inl (ValueError (''bucket/logs/a.json'' @ message_separator @ ''bucket/logs/b.json''))"
  by (simp add: json_unfold demo_json_objects demo_json_documents mixed_roots_def
        isinstance_list_def files_without_arrays_def full_name_def)
     (simp add: demo_json_def)

lemma demo_json_events:
  "generate_schema_from_json demo_json ''bucket'' ''events'' ''json'' 10 [] =
     Inr \<lparr>schema = [(''x'', ''NUMBER(38,0)'')], top_level_array = False\<rparr>"
proof -
  have frames: "json_frames demo_json [JObject [(''x'', JInt 1)], JObject [(''x'', JInt 2)]] =
      Inr [\<lparr>columns = [(''x'', ''object'')], rows = [[(''x'', Val (JInt 1))]]\<rparr>,
           \<lparr>columns = [(''x'', ''object'')], rows = [[(''x'', Val (JInt 2))]]\<rparr>]"
    by (simp add: json_frames_def library_call_def demo_json_def json_normalize_spec_def
        flat_records_def)
  have inferred: "infer_schema demo_json
      [\<lparr>columns = [(''x'', ''object'')], rows = [[(''x'', Val (JInt 1))]]\<rparr>,
       \<lparr>columns = [(''x'', ''object'')], rows = [[(''x'', Val (JInt 2))]]\<rparr>]
      = Inr [(''x'', ''NUMBER(38,0)'')]"
    by (simp add: infer_schema_def demo_json_def concat_convert_dtypes_def
        concat_columns_def concat_rows_def colnames_def reindex_def parse_datetime_def
        dtype_of_def getitem_def cell_at_def get_schema_from_df_def isna_sum_def
        PANDAS_TO_SNOWFLAKE_def Let_def)
  show ?thesis
    by (simp add: json_unfold demo_json_objects demo_json_documents mixed_roots_def
        isinstance_list_def frames inferred)
qed

lemma flatten_leaf_paths:
  "map fst (flatten segments v) = map (\<lambda>ks. py_join ''.'' (segments @ ks)) (leaf_paths v)"
proof (induction segments v rule: flatten.induct)
  case (1 segments members)
  have "map fst (flatten (segments @ [fst kv]) (snd kv)) =
        map (\<lambda>ks. py_join ''.'' (segments @ ks)) (map ((#) (fst kv)) (leaf_paths (snd kv)))"
    if "kv \<in> set members" for kv
    using 1 [OF that] by (simp add: comp_def)
  then show ?case
    by (simp add: map_concat comp_def cong: map_cong)
qed simp_all

lemma getitem_merged_cells: "getitem (concat_convert_dtypes e frames) c = merged_cells frames c"
  by (simp add: getitem_def merged_cells_def concat_convert_dtypes_def)

lemma try_all_total: "try_all (\<lambda>x. Inr (g x)) xs = Inr (map g xs)"
  by (induction xs) simp_all

lemma cell_at_key: "cell_at r c \<noteq> NA \<Longrightarrow> c \<in> fst ` set r"
  by (auto simp: cell_at_def split: option.splits dest: map_of_SomeD intro: rev_image_eqI)

lemma holds_array_iff: "holds_array cells \<longleftrightarrow> (\<exists>xs. Val (JArray xs) \<in> set cells)"
proof
  assume "holds_array cells"
  then obtain x where x: "x \<in> set cells"
    and a: "case x of Val (JArray xs) \<Rightarrow> True | _ \<Rightarrow> False"
    by (auto simp: holds_array_def list_ex_iff)
  from a obtain xs where "x = Val (JArray xs)"
    by (cases x) (auto split: json.splits)
  with x show "\<exists>xs. Val (JArray xs) \<in> set cells" by blast
next
  assume "\<exists>xs. Val (JArray xs) \<in> set cells"
  then show "holds_array cells"
    by (force simp: holds_array_def list_ex_iff)
qed

lemma array_cell_in_merged:
  assumes "f \<in> set frames" and "r \<in> set (rows f)" and "c \<in> set (colnames f)"
    and "cell_at r c = x"
  shows "x \<in> set (getitem (concat_convert_dtypes e frames) c)"
  using assms by (force simp: getitem_concat)

lemma demo_nested_objects:
  "list_non_empty_objects demo_nested ''bucket'' ''docs'' ''json'' 10 =
     [\<lparr>bucket_name = ''bucket'', key = ''doc.json''\<rparr>]"
  by (simp add: list_non_empty_objects_def demo_nested_def endswith_def)

lemma demo_nested_documents:
  "json_documents demo_nested ''bucket'' ''docs'' ''json'' 10 =
     Inr [JObject [(''meta'', JObject [(''owner'', JString ''ops'')]),
                   (''tags'', JArray [JString ''a'', JString ''b''])]]"
  by (simp add: json_documents_def demo_nested_objects library_call_def)
     (simp add: demo_nested_def)

lemma demo_nested_records:
  "flat_records (JObject [(''meta'', JObject [(''owner'', JString ''ops'')]),
                          (''tags'', JArray [JString ''a'', JString ''b''])]) =
     [[(''meta.owner'', Val (JString ''ops'')),
       (''tags'', Val (JArray [JString ''a'', JString ''b'']))]]"
  by (simp add: flat_records_def)

lemma demo_nested_result:
  "generate_schema_from_json demo_nested ''bucket'' ''docs'' ''json'' 10 [] =
     Inr \<lparr>schema = [(''meta.owner'', ''VARCHAR''), (''tags'', ''VARIANT'')],
          top_level_array = False\<rparr>"
proof -
  let ?frame = "\<lparr>columns = [(''meta.owner'', ''object''), (''tags'', ''object'')],
      rows = [[(''meta.owner'', Val (JString ''ops'')),
               (''tags'', Val (JArray [JString ''a'', JString ''b'']))]]\<rparr>"
  have frames: "json_frames demo_nested
      [JObject [(''meta'', JObject [(''owner'', JString ''ops'')]),
                (''tags'', JArray [JString ''a'', JString ''b''])]] = Inr [?frame]"
    by (simp add: json_frames_def library_call_def demo_nested_def json_normalize_spec_def
        demo_nested_records)
  have inferred: "infer_schema demo_nested [?frame]
      = Inr [(''meta.owner'', ''VARCHAR''), (''tags'', ''VARIANT'')]"
    by (simp add: infer_schema_def demo_nested_def concat_convert_dtypes_def
        concat_columns_def concat_rows_def colnames_def reindex_def parse_datetime_def
        dtype_of_def getitem_def cell_at_def get_schema_from_df_def isna_sum_def
        to_datetime_def merged_cells_def holds_array_def
        PANDAS_TO_SNOWFLAKE_def Let_def)
  show ?thesis
    by (simp add: json_unfold demo_nested_objects demo_nested_documents mixed_roots_def
        isinstance_list_def frames inferred)
qed

lemma demo_nested_arrays: "array_columns_are_object demo_nested"
  by (simp add: array_columns_are_object_def demo_nested_def)

lemma call_returns_frames:
  "call_returns e b p s l ov sch \<longleftrightarrow> (\<exists>frames. returns_schema e b p s l ov frames sch)"
proof
  assume "call_returns e b p s l ov sch"
  then consider r where "generate_schema_from_csv e b p s l ov = Inr r" "schema r = sch"
    | r where "generate_schema_from_json e b p s l ov = Inr r" "schema r = sch"
    unfolding call_returns_def by blast
  then show "\<exists>frames. returns_schema e b p s l ov frames sch"
  proof cases
    case 1
    then obtain frames where "csv_frames e b p s l = Inr frames"
      by (auto simp: csv_unfold split: if_splits sum.splits)
    moreover from 1 have "generate_schema_from_csv e b p s l ov = Inr \<lparr>schema = sch\<rparr>"
      by simp
    ultimately show ?thesis unfolding returns_schema_def by blast
  next
    case 2
    then obtain frames where "json_sample e b p s l = Inr frames"
      by (auto simp: json_unfold json_sample_def split: if_splits sum.splits)
    moreover from 2 have "generate_schema_from_json e b p s l ov
        = Inr \<lparr>schema = sch, top_level_array = top_level_array r\<rparr>"
      by auto
    ultimately show ?thesis unfolding returns_schema_def by blast
  qed
next
  assume "\<exists>frames. returns_schema e b p s l ov frames sch"
  then show "call_returns e b p s l ov sch"
    unfolding returns_schema_def call_returns_def by force
qed

lemma demo_call_returns:
  "call_returns demo_csv ''bucket'' ''data'' ''csv'' 10 ov
     (dict_update [(''id'', ''NUMBER(38,0)''), (''when'', ''TIMESTAMP WITHOUT TIME ZONE''),
        (''seen'', ''VARCHAR''), (''note'', ''VARIANT'')] ov)"
  by (simp add: call_returns_def demo_result)

section \<open>The claims\<close>

text \<open>
  Claim C1, as amended. When a call of either entry point returns, the columns of the
  schema are the column labels of the frames read off the sampled files, each once, in
  the order of their first appearance across the files in sampling order, followed by
  the columns that only an override names, in the order in which the overrides first
  name them. No column stands twice, a label that some files lack is there all the
  same, and with no override the columns are the labels of the frames and nothing else.
  As the claim is stated it leaves out the columns an override adds.
\<close>

theorem schema_columns_in_first_appearance_order:
  assumes "returns_schema e b p s l ov frames sch"
  shows "map fst sch =
           concat_columns frames @
           uniq (filter (\<lambda>k. k \<notin> set (concat_columns frames)) (map fst ov)) \<and>
         in_first_appearance_order (concat (map colnames frames)) (concat_columns frames) \<and>
         in_first_appearance_order
           (filter (\<lambda>k. k \<notin> set (concat_columns frames)) (map fst ov))
           (uniq (filter (\<lambda>k. k \<notin> set (concat_columns frames)) (map fst ov))) \<and>
         set (concat_columns frames) = (\<Union>f \<in> set frames. set (colnames f)) \<and>
         distinct (map fst sch) \<and>
         (ov = [] \<longrightarrow> map fst sch = concat_columns frames)"
proof -
  from inferred_keys [OF assms] obtain inferred
    where sch: "sch = dict_update inferred ov"
      and keys: "map fst inferred = concat_columns frames" by blast
  have k: "map fst sch =
           concat_columns frames @
           uniq (filter (\<lambda>k. k \<notin> set (concat_columns frames)) (map fst ov))"
    unfolding sch keys_dict_update keys ..
  have d: "distinct (map fst sch)"
    unfolding sch using keys by (intro distinct_keys_dict_update) (simp add: distinct_concat_columns)
  have o: "in_first_appearance_order (concat (map colnames frames)) (concat_columns frames)"
    unfolding concat_columns_def by (rule uniq_first_appearance)
  from k d o show ?thesis
    by (simp add: uniq_first_appearance set_concat_columns)
qed

theorem schema_columns_in_first_appearance_order_witness:
  "returns_schema demo_csv ''bucket'' ''data'' ''csv'' 10
     [(''id'', ''VARCHAR''), (''extra'', ''DATE''), (''id'', ''VARIANT'')] [frame_a, frame_b]
     [(''id'', ''VARIANT''), (''when'', ''TIMESTAMP WITHOUT TIME ZONE''),
      (''seen'', ''VARCHAR''), (''note'', ''VARIANT''), (''extra'', ''DATE'')] \<and>
   concat (map colnames [frame_a, frame_b])
     = [''id'', ''when'', ''seen'', ''id'', ''note'', ''seen''] \<and>
   concat_columns [frame_a, frame_b] = [''id'', ''when'', ''seen'', ''note''] \<and>
   map fst [(''id'', ''VARIANT''), (''when'', ''TIMESTAMP WITHOUT TIME ZONE''),
      (''seen'', ''VARCHAR''), (''note'', ''VARIANT''), (''extra'', ''DATE'')]
     = [''id'', ''when'', ''seen'', ''note''] @ [''extra''] \<and>
   in_first_appearance_order [''id'', ''when'', ''seen'', ''id'', ''note'', ''seen'']
     [''id'', ''when'', ''seen'', ''note'']"
proof -
  let ?ov = "[(''id'', ''VARCHAR''), (''extra'', ''DATE''), (''id'', ''VARIANT'')]"
  let ?sch = "[(''id'', ''VARIANT''), (''when'', ''TIMESTAMP WITHOUT TIME ZONE''),
      (''seen'', ''VARCHAR''), (''note'', ''VARIANT''), (''extra'', ''DATE'')]"
  have r: "returns_schema demo_csv ''bucket'' ''data'' ''csv'' 10 ?ov [frame_a, frame_b] ?sch"
    by (simp add: returns_schema_def demo_frames demo_result)
  have labels: "concat (map colnames [frame_a, frame_b])
     = [''id'', ''when'', ''seen'', ''id'', ''note'', ''seen'']"
    by (simp add: colnames_def frame_a_def frame_b_def)
  have cols: "concat_columns [frame_a, frame_b] = [''id'', ''when'', ''seen'', ''note'']"
    by (simp add: concat_columns_def colnames_def frame_a_def frame_b_def)
  from schema_columns_in_first_appearance_order [OF r] r labels cols
  show ?thesis by simp
qed

theorem schema_columns_counterexample:
  "generate_schema_from_csv demo_csv ''bucket'' ''data'' ''csv'' 10 [(''extra'', ''DATE'')]
   = Inr \<lparr>schema = [(''id'', ''NUMBER(38,0)''), (''when'', ''TIMESTAMP WITHOUT TIME ZONE''),
                    (''seen'', ''VARCHAR''), (''note'', ''VARIANT''), (''extra'', ''DATE'')]\<rparr> \<and>
   csv_frames demo_csv ''bucket'' ''data'' ''csv'' 10 = Inr [frame_a, frame_b] \<and>
   ''extra'' \<notin> set (colnames frame_a) \<union> set (colnames frame_b)"
  by (simp add: demo_result demo_frames) (simp add: colnames_def frame_a_def frame_b_def)

text \<open>
  Claim C2. A column of the concatenated sample whose every value is null (missing in
  the files that have the column, and absent from the others) is looked up as
  \<^verbatim>\<open>object\<close>, whatever dtype pandas gave it, and the schema a call returns maps it to
  \<^verbatim>\<open>VARIANT\<close> unless an override names it.
\<close>

theorem all_null_column_is_variant:
  assumes "returns_schema e b p s l ov frames sch"
    and "c \<in> set (concat_columns frames)"
    and "\<forall>f \<in> set frames. c \<in> set (colnames f) \<longrightarrow> (\<forall>r \<in> set (rows f). cell_at r c = NA)"
    and "c \<notin> fst ` set ov"
  shows "merged_dtype e frames c = ''object'' \<and> map_of sch c = Some ''VARIANT''"
proof -
  have "\<forall>x \<in> set (getitem (concat_convert_dtypes e frames) c). x = NA"
    using assms(3) by (auto simp: getitem_concat)
  then have "merged_dtype e frames c = ''object''"
    by (simp add: merged_dtype_def final_dtype_all_null)
  moreover have "map_of PANDAS_TO_SNOWFLAKE ''object'' = Some ''VARIANT''"
    by (simp add: PANDAS_TO_SNOWFLAKE_def)
  ultimately show ?thesis
    using schema_lookup [OF assms(1,2,4)] by simp
qed

theorem all_null_column_is_variant_witness:
  "returns_schema demo_csv ''bucket'' ''data'' ''csv'' 10 [] [frame_a, frame_b]
     [(''id'', ''NUMBER(38,0)''), (''when'', ''TIMESTAMP WITHOUT TIME ZONE''),
      (''seen'', ''VARCHAR''), (''note'', ''VARIANT'')] \<and>
   ''note'' \<in> set (concat_columns [frame_a, frame_b]) \<and>
   cell_at [(''id'', Val (JInt 2)), (''note'', NA), (''seen'', Val (JString ''yesterday''))] ''note'' = NA \<and>
   convert_dtype demo_csv [frame_a, frame_b] ''note'' = ''Int64'' \<and>
   merged_dtype demo_csv [frame_a, frame_b] ''note'' = ''object'' \<and>
   map_of [(''id'', ''NUMBER(38,0)''), (''when'', ''TIMESTAMP WITHOUT TIME ZONE''),
      (''seen'', ''VARCHAR''), (''note'', ''VARIANT'')] ''note'' = Some ''VARIANT''"
proof -
  have cols: "''note'' \<in> set (concat_columns [frame_a, frame_b])"
    by (simp add: concat_columns_def colnames_def frame_a_def frame_b_def)
  have nulls: "\<forall>f \<in> set [frame_a, frame_b]. ''note'' \<in> set (colnames f)
                 \<longrightarrow> (\<forall>r \<in> set (rows f). cell_at r ''note'' = NA)"
    by (simp add: colnames_def frame_a_def frame_b_def cell_at_def)
  have "''note'' \<notin> fst ` set ([] :: (string \<times> string) list)" by simp
  from all_null_column_is_variant [OF demo_returns cols nulls this] demo_returns cols
  show ?thesis by (simp add: cell_at_def demo_csv_def)
qed

text \<open>
  Claim C3, as amended. Take a column of the concatenated sample that no override names,
  in a call that returns. \<^verbatim>\<open>_parse_datetime\<close> tries it only when its dtype is \<^verbatim>\<open>string\<close>, and
  then as a whole, by one call of \<^verbatim>\<open>pd.to_datetime\<close> on the column alone.
  \<^item> A column of another dtype is not touched: if it holds a value, its token is the
    table's for its own dtype.
  \<^item> If \<^verbatim>\<open>pd.to_datetime\<close> raises ValueError, every value of the column is left as it
    was, and a column that holds a value maps to \<^verbatim>\<open>VARCHAR\<close>.
  \<^item> If \<^verbatim>\<open>pd.to_datetime\<close> returns, the column is replaced by the returned series, all of
    it. When some value of that series is not null the token is the table's for the
    dtype of the series, \<^verbatim>\<open>TIMESTAMP WITHOUT TIME ZONE\<close> for \<^verbatim>\<open>datetime64[ns]\<close>; when every
    value of it is null the token is \<^verbatim>\<open>VARIANT\<close>.

  As the claim is stated, a column of strings ends as Timestamp or stays String. It
  need not: \<^verbatim>\<open>pd.to_datetime\<close> may return a series that is null where the column held a
  value, and the column is then looked up as \<^verbatim>\<open>object\<close>.
\<close>

theorem datetime_promotion_whole_column:
  assumes "returns_schema e b p s l ov frames sch"
    and "df = concat_convert_dtypes e frames"
    and "c \<in> set (colnames df)"
    and "c \<notin> fst ` set ov"
  shows "(dtype_of df c \<noteq> ''string'' \<longrightarrow>
            getitem (parse_datetime e df) c = getitem df c \<and>
            ((\<exists>x \<in> set (getitem df c). x \<noteq> NA)
               \<longrightarrow> map_of sch c = map_of PANDAS_TO_SNOWFLAKE (dtype_of df c))) \<and>
         (dtype_of df c = ''string'' \<and> to_datetime e (getitem df c) = None \<longrightarrow>
            getitem (parse_datetime e df) c = getitem df c \<and>
            ((\<exists>x \<in> set (getitem df c). x \<noteq> NA) \<longrightarrow> map_of sch c = Some ''VARCHAR'')) \<and>
         (\<forall>dt series.
            dtype_of df c = ''string'' \<and> to_datetime e (getitem df c) = Some (dt, series) \<longrightarrow>
            getitem (parse_datetime e df) c = series \<and>
            dtype_of (parse_datetime e df) c = dt \<and>
            ((\<exists>x \<in> set series. x \<noteq> NA)
               \<longrightarrow> map_of sch c = map_of PANDAS_TO_SNOWFLAKE dt) \<and>
            ((\<exists>x \<in> set series. x \<noteq> NA) \<and> dt = ''datetime64[ns]''
               \<longrightarrow> map_of sch c = Some ''TIMESTAMP WITHOUT TIME ZONE'') \<and>
            ((\<forall>x \<in> set series. x = NA) \<longrightarrow> map_of sch c = Some ''VARIANT''))"
proof -
  from assms(2,3) have c: "c \<in> set (concat_columns frames)"
    by (simp add: colnames_concat)
  have d: "distinct (colnames df)"
    by (simp add: assms(2) colnames_concat distinct_concat_columns)
  have lookup: "map_of sch c = map_of PANDAS_TO_SNOWFLAKE (final_dtype e df c)"
    using schema_lookup [OF assms(1) c assms(4)] by (simp add: merged_dtype_def assms(2))
  have cells: "getitem (parse_datetime e df) c = snd (promoted e df c)"
    and dtype: "dtype_of (parse_datetime e df) c = fst (promoted e df c)"
    using parse_datetime_props(3,4) [OF d assms(3)] by simp_all
  have table: "map_of PANDAS_TO_SNOWFLAKE ''datetime64[ns]'' = Some ''TIMESTAMP WITHOUT TIME ZONE''"
    "map_of PANDAS_TO_SNOWFLAKE ''string'' = Some ''VARCHAR''"
    "map_of PANDAS_TO_SNOWFLAKE ''object'' = Some ''VARIANT''"
    by (simp_all add: PANDAS_TO_SNOWFLAKE_def)
  have other: "dtype_of df c \<noteq> ''string'' \<longrightarrow>
            getitem (parse_datetime e df) c = getitem df c \<and>
            ((\<exists>x \<in> set (getitem df c). x \<noteq> NA)
               \<longrightarrow> map_of sch c = map_of PANDAS_TO_SNOWFLAKE (dtype_of df c))"
    by (simp add: cells lookup promoted_unchanged final_dtype_unchanged)
  have raised: "dtype_of df c = ''string'' \<and> to_datetime e (getitem df c) = None \<longrightarrow>
            getitem (parse_datetime e df) c = getitem df c \<and>
            ((\<exists>x \<in> set (getitem df c). x \<noteq> NA) \<longrightarrow> map_of sch c = Some ''VARCHAR'')"
    using table(2) by (simp add: cells lookup promoted_unchanged final_dtype_unchanged)
  have returned: "getitem (parse_datetime e df) c = series \<and>
            dtype_of (parse_datetime e df) c = dt \<and>
            ((\<exists>x \<in> set series. x \<noteq> NA)
               \<longrightarrow> map_of sch c = map_of PANDAS_TO_SNOWFLAKE dt) \<and>
            ((\<exists>x \<in> set series. x \<noteq> NA) \<and> dt = ''datetime64[ns]''
               \<longrightarrow> map_of sch c = Some ''TIMESTAMP WITHOUT TIME ZONE'') \<and>
            ((\<forall>x \<in> set series. x = NA) \<longrightarrow> map_of sch c = Some ''VARIANT'')"
    if "dtype_of df c = ''string''" and "to_datetime e (getitem df c) = Some (dt, series)"
    for dt series
    using table(1,3)
    by (auto simp: cells dtype lookup promoted_replaced [OF that] final_dtype_replaced [OF that])
  from other raised returned show ?thesis by blast
qed

theorem datetime_promotion_whole_column_witness:
  "returns_schema demo_csv ''bucket'' ''data'' ''csv'' 10 [] [frame_a, frame_b]
     [(''id'', ''NUMBER(38,0)''), (''when'', ''TIMESTAMP WITHOUT TIME ZONE''),
      (''seen'', ''VARCHAR''), (''note'', ''VARIANT'')] \<and>
   dtype_of (concat_convert_dtypes demo_csv [frame_a, frame_b]) ''when'' = ''string'' \<and>
   dtype_of (concat_convert_dtypes demo_csv [frame_a, frame_b]) ''seen'' = ''string'' \<and>
   getitem (concat_convert_dtypes demo_csv [frame_a, frame_b]) ''when''
     = [Val (JString ''2020-01-01 00:00:00''), NA] \<and>
   getitem (concat_convert_dtypes demo_csv [frame_a, frame_b]) ''seen''
     = [Val (JString ''2020-01-01 00:00:00''), Val (JString ''yesterday'')] \<and>
   to_datetime demo_csv [Val (JString ''2020-01-01 00:00:00''), NA]
     = Some (''datetime64[ns]'', [Datetime (JString ''2020-01-01 00:00:00''), NA]) \<and>
   to_datetime demo_csv [Val (JString ''2020-01-01 00:00:00''), Val (JString ''yesterday'')]
     = None \<and>
   getitem (parse_datetime demo_csv (concat_convert_dtypes demo_csv [frame_a, frame_b])) ''when''
     = [Datetime (JString ''2020-01-01 00:00:00''), NA] \<and>
   getitem (parse_datetime demo_csv (concat_convert_dtypes demo_csv [frame_a, frame_b])) ''seen''
     = [Val (JString ''2020-01-01 00:00:00''), Val (JString ''yesterday'')] \<and>
   map_of [(''id'', ''NUMBER(38,0)''), (''when'', ''TIMESTAMP WITHOUT TIME ZONE''),
      (''seen'', ''VARCHAR''), (''note'', ''VARIANT'')] ''when'' = Some ''TIMESTAMP WITHOUT TIME ZONE'' \<and>
   map_of [(''id'', ''NUMBER(38,0)''), (''when'', ''TIMESTAMP WITHOUT TIME ZONE''),
      (''seen'', ''VARCHAR''), (''note'', ''VARIANT'')] ''seen'' = Some ''VARCHAR''"
proof -
  let ?df = "concat_convert_dtypes demo_csv [frame_a, frame_b]"
  let ?sch = "[(''id'', ''NUMBER(38,0)''), (''when'', ''TIMESTAMP WITHOUT TIME ZONE''),
      (''seen'', ''VARCHAR''), (''note'', ''VARIANT'')]"
  have cells: "getitem ?df ''when'' = [Val (JString ''2020-01-01 00:00:00''), NA]"
    "getitem ?df ''seen'' = [Val (JString ''2020-01-01 00:00:00''), Val (JString ''yesterday'')]"
    by (simp_all add: demo_merged getitem_def cell_at_def)
  have dt: "dtype_of ?df ''when'' = ''string''" "dtype_of ?df ''seen'' = ''string''"
    by (simp_all add: demo_merged dtype_of_def)
  have cols: "''when'' \<in> set (colnames ?df)" "''seen'' \<in> set (colnames ?df)"
    by (simp_all add: demo_merged colnames_def)
  have conv: "to_datetime demo_csv [Val (JString ''2020-01-01 00:00:00''), NA]
      = Some (''datetime64[ns]'', [Datetime (JString ''2020-01-01 00:00:00''), NA])"
    "to_datetime demo_csv [Val (JString ''2020-01-01 00:00:00''), Val (JString ''yesterday'')]
      = None"
    by (simp_all add: to_datetime_def demo_csv_def)
  have no: "c \<notin> fst ` set ([] :: (string \<times> string) list)" for c by simp
  have "getitem (parse_datetime demo_csv ?df) ''when''
          = [Datetime (JString ''2020-01-01 00:00:00''), NA] \<and>
        map_of ?sch ''when'' = Some ''TIMESTAMP WITHOUT TIME ZONE''"
    using datetime_promotion_whole_column [OF demo_returns refl cols(1) no] dt(1) conv(1)
    by (simp add: cells)
  moreover have "getitem (parse_datetime demo_csv ?df) ''seen''
          = [Val (JString ''2020-01-01 00:00:00''), Val (JString ''yesterday'')] \<and>
        map_of ?sch ''seen'' = Some ''VARCHAR''"
    using datetime_promotion_whole_column [OF demo_returns refl cols(2) no] dt(2) conv(2)
    by (simp add: cells)
  ultimately show ?thesis using demo_returns cells dt conv by simp
qed

theorem datetime_promotion_counterexample:
  "json_sample demo_blank ''bucket'' ''docs'' ''json'' 10 = Inr [frame_blank] \<and>
   dtype_of (concat_convert_dtypes demo_blank [frame_blank]) ''d'' = ''string'' \<and>
   getitem (concat_convert_dtypes demo_blank [frame_blank]) ''d'' = [Val (JString '''')] \<and>
   to_datetime demo_blank [Val (JString '''')] = Some (''datetime64[ns]'', [NA]) \<and>
   generate_schema_from_json demo_blank ''bucket'' ''docs'' ''json'' 10 []
     = Inr \<lparr>schema = [(''d'', ''VARIANT'')], top_level_array = False\<rparr>"
proof -
  have objects: "list_non_empty_objects demo_blank ''bucket'' ''docs'' ''json'' 10 =
      [\<lparr>bucket_name = ''bucket'', key = ''docs/blank.json''\<rparr>]"
    by (simp add: list_non_empty_objects_def demo_blank_def endswith_def)
  have documents: "json_documents demo_blank ''bucket'' ''docs'' ''json'' 10 =
      Inr [JObject [(''d'', JString '''')]]"
    by (simp add: json_documents_def objects library_call_def) (simp add: demo_blank_def)
  have frames: "json_frames demo_blank [JObject [(''d'', JString '''')]] = Inr [frame_blank]"
    by (simp add: json_frames_def library_call_def demo_blank_def)
  have merged: "concat_convert_dtypes demo_blank [frame_blank] =
      \<lparr>columns = [(''d'', ''string'')], rows = [[(''d'', Val (JString ''''))]]\<rparr>"
    by (simp add: concat_convert_dtypes_def concat_columns_def concat_rows_def colnames_def
        reindex_def frame_blank_def demo_blank_def)
  have conv: "to_datetime demo_blank [Val (JString '''')] = Some (''datetime64[ns]'', [NA])"
    by (simp add: to_datetime_def demo_blank_def)
  have inferred: "infer_schema demo_blank [frame_blank] = Inr [(''d'', ''VARIANT'')]"
    by (simp add: infer_schema_def merged parse_datetime_def colnames_def dtype_of_def
        getitem_def cell_at_def conv setitem_def get_schema_from_df_def isna_sum_def
        PANDAS_TO_SNOWFLAKE_def Let_def)
  show ?thesis
    by (simp add: json_sample_def documents frames merged conv dtype_of_def getitem_def
        cell_at_def json_unfold objects mixed_roots_def isinstance_list_def inferred)
qed

text \<open>
  Claim C5, as amended. When every sampled file decodes, \<^verbatim>\<open>generate_schema_from_json\<close>
  raises ValueError if and only if some but not all of the documents have an array at
  the root; the message is then \<^verbatim>\<open>dedent\<close> of the join of the names
  \<^verbatim>\<open>bucket/key\<close> of exactly the files whose root is not an array, in sampling order,
  whichever kind is the majority; and a call that returns gives \<^verbatim>\<open>top_level_array\<close> true
  when every root is an array and false when none is. As the claim is stated, the
  message would name the array files when they are the minority; the code never does.
\<close>

theorem structural_inconsistency:
  assumes "json_documents e b p s l = Inr json_data"
    and "list_non_empty_objects e b p s l = s3_objects"
  shows "((\<exists>msg. generate_schema_from_json e b p s l ov = Inl (ValueError msg)) \<longleftrightarrow>
            (\<exists>d \<in> set json_data. isinstance_list d) \<and>
            (\<exists>d \<in> set json_data. \<not> isinstance_list d)) \<and>
         ((\<exists>d \<in> set json_data. isinstance_list d) \<and> (\<exists>d \<in> set json_data. \<not> isinstance_list d)
            \<longrightarrow> generate_schema_from_json e b p s l ov =
                 Inl (ValueError (dedent e (py_join message_separator
                   (map full_name (filter (\<lambda>obj. \<not> root_is_array e obj) s3_objects)))))) \<and>
         (\<forall>r. generate_schema_from_json e b p s l ov = Inr r \<longrightarrow>
            (top_level_array r \<longleftrightarrow> (\<forall>d \<in> set json_data. isinstance_list d)) \<and>
            (\<not> top_level_array r \<longleftrightarrow> (\<forall>d \<in> set json_data. \<not> isinstance_list d)))"
proof (intro conjI allI impI)
  have len: "length json_data = length s3_objects"
    using json_documents_Inr [OF assms(1)] assms(2) by (metis length_map)
  have names: "files_without_arrays (map isinstance_list json_data) s3_objects =
      map full_name (filter (\<lambda>obj. \<not> root_is_array e obj) s3_objects)"
    using json_documents_Inr [OF assms(1)] assms(2)
    by (intro files_without_arrays_decoded) simp
  have empty: "s3_objects = [] \<Longrightarrow> \<not> mixed_roots json_data"
    using len by (simp add: mixed_roots_def)
  show "(\<exists>msg. generate_schema_from_json e b p s l ov = Inl (ValueError msg)) \<longleftrightarrow>
            (\<exists>d \<in> set json_data. isinstance_list d) \<and>
            (\<exists>d \<in> set json_data. \<not> isinstance_list d)"
    unfolding mixed_roots_iff [symmetric]
    using empty
    by (auto simp: json_unfold assms split: sum.splits
        dest!: infer_schema_Inl library_call_Inl simp: json_frames_def)
  show "generate_schema_from_json e b p s l ov =
          Inl (ValueError (dedent e (py_join message_separator
            (map full_name (filter (\<lambda>obj. \<not> root_is_array e obj) s3_objects)))))"
    if "(\<exists>d \<in> set json_data. isinstance_list d) \<and> (\<exists>d \<in> set json_data. \<not> isinstance_list d)"
  proof -
    from that have m: "mixed_roots json_data" by (simp add: mixed_roots_iff)
    with empty have "s3_objects \<noteq> []" by blast
    with m show ?thesis by (simp add: json_unfold assms names)
  qed
  fix r
  assume r: "generate_schema_from_json e b p s l ov = Inr r"
  then have nm: "\<not> mixed_roots json_data" and ne: "s3_objects \<noteq> []"
    and tl: "top_level_array r = list_all isinstance_list json_data"
    by (auto simp: json_unfold assms split: if_splits sum.splits)
  from ne len have "json_data \<noteq> []" by auto
  then obtain d0 where "d0 \<in> set json_data" by (cases json_data) auto
  with nm show "top_level_array r \<longleftrightarrow> (\<forall>d \<in> set json_data. isinstance_list d)"
    and "\<not> top_level_array r \<longleftrightarrow> (\<forall>d \<in> set json_data. \<not> isinstance_list d)"
    unfolding tl mixed_roots_iff by (auto simp: list_all_iff)
qed

theorem structural_inconsistency_witness:
  "json_documents demo_json ''bucket'' ''logs'' ''json'' 10 =
     Inr [JObject [(''x'', JInt 1)], JObject [(''x'', JInt 2)], JArray [JObject [(''x'', JInt 3)]]] \<and>
   generate_schema_from_json demo_json ''bucket'' ''logs'' ''json'' 10 [] =
     Inl (ValueError (''bucket/logs/a.json'' @ message_separator @ ''bucket/logs/b.json'')) \<and>
   json_documents demo_json ''bucket'' ''events'' ''json'' 10 =
     Inr [JObject [(''x'', JInt 1)], JObject [(''x'', JInt 2)]] \<and>
   generate_schema_from_json demo_json ''bucket'' ''events'' ''json'' 10 [] =
     Inr \<lparr>schema = [(''x'', ''NUMBER(38,0)'')], top_level_array = False\<rparr> \<and>
   \<not> isinstance_list (JObject [(''x'', JInt 1)]) \<and> \<not> isinstance_list (JObject [(''x'', JInt 2)])"
proof -
  note logs = structural_inconsistency [OF demo_json_documents(1) demo_json_objects(1), of "[]"]
  note events = structural_inconsistency [OF demo_json_documents(2) demo_json_objects(2), of "[]"]
  have a: "generate_schema_from_json demo_json ''bucket'' ''logs'' ''json'' 10 [] =
     Inl (ValueError (''bucket/logs/a.json'' @ message_separator @ ''bucket/logs/b.json''))"
    using logs by (simp add: isinstance_list_def demo_json_roots full_name_def)
       (simp add: demo_json_def)
  from events demo_json_events
  have b: "\<not> isinstance_list (JObject [(''x'', JInt 1)]) \<and> \<not> isinstance_list (JObject [(''x'', JInt 2)])"
    by simp
  from a b demo_json_documents demo_json_events show ?thesis by simp
qed

theorem structural_inconsistency_counterexample:
  "generate_schema_from_json demo_json ''bucket'' ''logs'' ''json'' 10 [] =
     Inl (ValueError (''bucket/logs/a.json'' @ message_separator @ ''bucket/logs/b.json'')) \<and>
   non_conforming_files demo_json
     (list_non_empty_objects demo_json ''bucket'' ''logs'' ''json'' 10) = [''bucket/logs/c.json''] \<and>
   dedent demo_json (py_join message_separator [''bucket/logs/c.json''])
     \<noteq> ''bucket/logs/a.json'' @ message_separator @ ''bucket/logs/b.json''"
  by (simp add: demo_json_mixed demo_json_objects non_conforming_files_def demo_json_roots
        full_name_def)
     (simp add: demo_json_def)

text \<open>
  Claim C6. Each entry point raises FileNotFoundError if and only if the sampler
  \<^verbatim>\<open>list_non_empty_objects\<close> returns the empty list; the result is then the error and no
  schema.
\<close>

theorem no_sample_data:
  "(generate_schema_from_csv e b p s l ov = Inl FileNotFoundError
      \<longleftrightarrow> list_non_empty_objects e b p s l = []) \<and>
   (generate_schema_from_json e b p s l ov = Inl FileNotFoundError
      \<longleftrightarrow> list_non_empty_objects e b p s l = [])"
proof
  show "generate_schema_from_csv e b p s l ov = Inl FileNotFoundError
          \<longleftrightarrow> list_non_empty_objects e b p s l = []"
    by (auto simp: csv_unfold split: sum.splits
        dest!: infer_schema_Inl library_call_Inl [of _ FileNotFoundError]
        simp: csv_frames_def)
  show "generate_schema_from_json e b p s l ov = Inl FileNotFoundError
          \<longleftrightarrow> list_non_empty_objects e b p s l = []"
    by (auto simp: json_unfold split: sum.splits
        dest!: infer_schema_Inl library_call_Inl [of _ FileNotFoundError]
        simp: json_documents_def json_frames_def)
qed

theorem no_sample_data_witness:
  "generate_schema_from_csv demo_csv ''bucket'' ''missing'' ''csv'' 10 [] = Inl FileNotFoundError \<and>
   generate_schema_from_json demo_csv ''bucket'' ''missing'' ''json'' 10 [] = Inl FileNotFoundError \<and>
   generate_schema_from_csv demo_csv ''bucket'' ''data'' ''csv'' 10 [] \<noteq> Inl FileNotFoundError"
  using no_sample_data [of demo_csv "''bucket''" "''missing''" "''csv''" 10 "[]"]
    no_sample_data [of demo_csv "''bucket''" "''missing''" "''json''" 10 "[]"]
    no_sample_data [of demo_csv "''bucket''" "''data''" "''csv''" 10 "[]"]
  by (simp add: demo_objects) (simp add: list_non_empty_objects_def demo_csv_def)

text \<open>
  Claim C7, as amended. In the schema a call returns, each column an override names
  has the token of the last override that names it, whatever was inferred for it; every
  column an override names is in the schema, inferred or not; and updating the schema
  with the same overrides once more changes nothing. As the claim is stated, every
  override's token would be final; an earlier override of a column is replaced by a
  later one.
\<close>

theorem override_last_wins:
  assumes "call_returns e b p s l ov sch"
  shows "(\<forall>c t earlier later. ov = earlier @ (c, t) # later \<and> c \<notin> fst ` set later
            \<longrightarrow> map_of sch c = Some t) \<and>
         (\<forall>(c, t) \<in> set ov. c \<in> fst ` set sch) \<and>
         dict_update sch ov = sch"
proof -
  from assms obtain frames where "returns_schema e b p s l ov frames sch"
    unfolding call_returns_frames ..
  from inferred_keys [OF this] obtain inferred
    where sch: "sch = dict_update inferred ov"
      and keys: "map fst inferred = concat_columns frames" by blast
  have "map_of sch c = Some t"
    if "ov = earlier @ (c, t) # later \<and> c \<notin> fst ` set later" for c t earlier later
  proof -
    from that have ov: "ov = earlier @ (c, t) # later" and last: "c \<notin> fst ` set later"
      by simp_all
    from last have "map_of (rev later) c = None"
      by (simp add: map_of_eq_None_iff)
    then have "map_of (rev ov) c = Some t"
      by (simp add: ov map_add_def)
    then show ?thesis
      by (simp add: sch map_of_dict_update map_add_def)
  qed
  moreover have "\<forall>(c, t) \<in> set ov. c \<in> fst ` set sch"
  proof -
    have "fst ` set ov \<subseteq> set (map fst sch)"
      unfolding sch keys_dict_update by (auto simp: set_uniq)
    then show ?thesis by force
  qed
  moreover have "dict_update sch ov = sch"
  proof -
    from keys have "distinct (map fst inferred)"
      by (simp add: distinct_concat_columns)
    then show ?thesis unfolding sch by (rule dict_update_idem)
  qed
  ultimately show ?thesis by blast
qed

theorem override_last_wins_witness:
  "call_returns demo_csv ''bucket'' ''data'' ''csv'' 10
     [(''id'', ''VARCHAR''), (''extra'', ''DATE''), (''id'', ''VARIANT'')]
     [(''id'', ''VARIANT''), (''when'', ''TIMESTAMP WITHOUT TIME ZONE''),
      (''seen'', ''VARCHAR''), (''note'', ''VARIANT''), (''extra'', ''DATE'')] \<and>
   map_of [(''id'', ''VARIANT''), (''when'', ''TIMESTAMP WITHOUT TIME ZONE''),
      (''seen'', ''VARCHAR''), (''note'', ''VARIANT''), (''extra'', ''DATE'')] ''id''
     = Some ''VARIANT'' \<and>
   ''extra'' \<in> fst ` set [(''id'', ''VARIANT''), (''when'', ''TIMESTAMP WITHOUT TIME ZONE''),
      (''seen'', ''VARCHAR''), (''note'', ''VARIANT''), (''extra'', ''DATE'')] \<and>
   dict_update [(''id'', ''VARIANT''), (''when'', ''TIMESTAMP WITHOUT TIME ZONE''),
      (''seen'', ''VARCHAR''), (''note'', ''VARIANT''), (''extra'', ''DATE'')]
     [(''id'', ''VARCHAR''), (''extra'', ''DATE''), (''id'', ''VARIANT'')]
   = [(''id'', ''VARIANT''), (''when'', ''TIMESTAMP WITHOUT TIME ZONE''),
      (''seen'', ''VARCHAR''), (''note'', ''VARIANT''), (''extra'', ''DATE'')]"
proof -
  let ?ov = "[(''id'', ''VARCHAR''), (''extra'', ''DATE''), (''id'', ''VARIANT'')]"
  let ?sch = "[(''id'', ''VARIANT''), (''when'', ''TIMESTAMP WITHOUT TIME ZONE''),
      (''seen'', ''VARCHAR''), (''note'', ''VARIANT''), (''extra'', ''DATE'')]"
  have r: "call_returns demo_csv ''bucket'' ''data'' ''csv'' 10 ?ov ?sch"
    using demo_call_returns [of ?ov] by simp
  note inst = override_last_wins [OF r]
  from inst have "?ov = [(''id'', ''VARCHAR''), (''extra'', ''DATE'')] @ (''id'', ''VARIANT'') # []
      \<and> ''id'' \<notin> fst ` set ([] :: (string \<times> string) list) \<longrightarrow> map_of ?sch ''id'' = Some ''VARIANT''"
    by blast
  then have a: "map_of ?sch ''id'' = Some ''VARIANT''" by simp
  from inst have "\<forall>(c, t) \<in> set ?ov. c \<in> fst ` set ?sch" by blast
  then have b: "''extra'' \<in> fst ` set ?sch" by simp
  from inst have c: "dict_update ?sch ?ov = ?sch" by blast
  from r a b c show ?thesis by blast
qed

theorem override_last_wins_counterexample:
  "generate_schema_from_csv demo_csv ''bucket'' ''data'' ''csv'' 10
     [(''id'', ''VARCHAR''), (''id'', ''VARIANT'')]
   = Inr \<lparr>schema = [(''id'', ''VARIANT''), (''when'', ''TIMESTAMP WITHOUT TIME ZONE''),
                    (''seen'', ''VARCHAR''), (''note'', ''VARIANT'')]\<rparr> \<and>
   (''id'', ''VARCHAR'') \<in> set [(''id'', ''VARCHAR''), (''id'', ''VARIANT'')] \<and>
   map_of [(''id'', ''VARIANT''), (''when'', ''TIMESTAMP WITHOUT TIME ZONE''),
           (''seen'', ''VARCHAR''), (''note'', ''VARIANT'')] ''id'' \<noteq> Some ''VARCHAR''"
  by (simp add: demo_result)

text \<open>
  Claim C8, against the flattening and the dtype rule modelled from the specification.
  The document \<^verbatim>\<open>{"a":{"b":1}}\<close> gives the one column \<^verbatim>\<open>a.b\<close>; the keys of a flattened
  value are the key paths to its leaves, joined by dots; an array is one leaf at its own
  path, whatever it holds; a document whose root is an array gives one record for each
  element and any other document one record; and when the frames are those of the
  flattening and an array makes the dtype of its column \<^verbatim>\<open>object\<close>, the schema that
  \<^verbatim>\<open>generate_schema_from_json\<close> returns maps the column of an array to \<^verbatim>\<open>VARIANT\<close>,
  unless an override names it.
\<close>

theorem json_flattening:
  "flat_records (JObject [(''a'', JObject [(''b'', JInt 1)])]) = [[(''a.b'', Val (JInt 1))]] \<and>
   map fst (flatten [] v) = map (py_join ''.'') (leaf_paths v) \<and>
   flatten segments (JArray xs) = [(py_join ''.'' segments, Val (JArray xs))] \<and>
   flat_records (JArray elements) = map (flatten []) elements \<and>
   ((\<forall>elements. data \<noteq> JArray elements) \<longrightarrow> flat_records data = [flatten [] data]) \<and>
   (json_normalize e = json_normalize_spec \<and> array_columns_are_object e \<and>
    json_documents e b p s l = Inr json_data \<and>
    generate_schema_from_json e b p s l ov = Inr r \<and>
    d \<in> set json_data \<and> flat \<in> set (flat_records d) \<and>
    cell_at flat c = Val (JArray xs) \<and> c \<notin> fst ` set ov
    \<longrightarrow> map_of (schema r) c = Some ''VARIANT'')"
proof (intro conjI impI)
  show "flat_records (JObject [(''a'', JObject [(''b'', JInt 1)])]) = [[(''a.b'', Val (JInt 1))]]"
    by (simp add: flat_records_def)
  show "map fst (flatten [] v) = map (py_join ''.'') (leaf_paths v)"
    using flatten_leaf_paths [of "[]" v] by simp
  show "flatten segments (JArray xs) = [(py_join ''.'' segments, Val (JArray xs))]"
    by simp
  show "flat_records (JArray elements) = map (flatten []) elements"
    by (simp add: flat_records_def)
  show "flat_records data = [flatten [] data]" if "\<forall>elements. data \<noteq> JArray elements"
    using that by (cases data) (simp_all add: flat_records_def)
  assume a: "json_normalize e = json_normalize_spec \<and> array_columns_are_object e \<and>
    json_documents e b p s l = Inr json_data \<and>
    generate_schema_from_json e b p s l ov = Inr r \<and>
    d \<in> set json_data \<and> flat \<in> set (flat_records d) \<and>
    cell_at flat c = Val (JArray xs) \<and> c \<notin> fst ` set ov"
  define frame_of where "frame_of data =
     \<lparr>columns = map (\<lambda>c. (c, ''object'')) (uniq (concat (map (map fst) (flat_records data)))),
      rows = flat_records data\<rparr>" for data
  define frames where "frames = map frame_of json_data"
  let ?df = "concat_convert_dtypes e frames"
  have norm: "json_normalize e = (\<lambda>data. Inr (frame_of data))"
    using a by (simp add: json_normalize_spec_def frame_of_def fun_eq_iff)
  have jf: "json_frames e json_data = Inr frames"
    by (simp add: json_frames_def norm try_all_total library_call_def frames_def)
  from a have gen: "generate_schema_from_json e b p s l ov = Inr r"
    and docs: "json_documents e b p s l = Inr json_data" by simp_all
  have "generate_schema_from_json e b p s l ov
          = Inr \<lparr>schema = schema r, top_level_array = top_level_array r\<rparr>"
    using gen by simp
  then have "\<exists>top_level. generate_schema_from_json e b p s l ov
          = Inr \<lparr>schema = schema r, top_level_array = top_level\<rparr>" ..
  then have ret: "returns_schema e b p s l ov frames (schema r)"
    by (simp add: returns_schema_def json_sample_def docs jf)
  from a have f: "frame_of d \<in> set frames" and rec: "flat \<in> set (rows (frame_of d))"
    by (simp_all add: frames_def frame_of_def)
  from a have "cell_at flat c \<noteq> NA" by simp
  then have "c \<in> fst ` set flat" by (rule cell_at_key)
  with a have cf: "c \<in> set (colnames (frame_of d))"
    by (auto simp: colnames_def frame_of_def comp_def set_uniq)
  with f have cc: "c \<in> set (concat_columns frames)"
    by (auto simp: set_concat_columns)
  have cell: "Val (JArray xs) \<in> set (getitem ?df c)"
    using a by (intro array_cell_in_merged [OF f rec cf]) simp
  then have "holds_array (merged_cells frames c)"
    by (auto simp: holds_array_iff getitem_merged_cells)
  with a have "convert_dtype e frames c = ''object''"
    by (simp add: array_columns_are_object_def)
  with cc have dt: "dtype_of ?df c = ''object''" by (simp add: dtype_of_concat)
  from cell have "\<exists>x \<in> set (getitem ?df c). x \<noteq> NA" by force
  then have "merged_dtype e frames c = ''object''"
    unfolding merged_dtype_def by (simp add: final_dtype_unchanged dt)
  moreover from a have "c \<notin> fst ` set ov" by simp
  ultimately show "map_of (schema r) c = Some ''VARIANT''"
    using schema_lookup [OF ret cc] by (simp add: PANDAS_TO_SNOWFLAKE_def)
qed

theorem json_flattening_witness:
  "json_normalize demo_nested = json_normalize_spec \<and>
   array_columns_are_object demo_nested \<and>
   json_documents demo_nested ''bucket'' ''docs'' ''json'' 10 =
     Inr [JObject [(''meta'', JObject [(''owner'', JString ''ops'')]),
                   (''tags'', JArray [JString ''a'', JString ''b''])]] \<and>
   generate_schema_from_json demo_nested ''bucket'' ''docs'' ''json'' 10 [] =
     Inr \<lparr>schema = [(''meta.owner'', ''VARCHAR''), (''tags'', ''VARIANT'')],
          top_level_array = False\<rparr> \<and>
   flat_records (JObject [(''meta'', JObject [(''owner'', JString ''ops'')]),
                          (''tags'', JArray [JString ''a'', JString ''b''])]) =
     [[(''meta.owner'', Val (JString ''ops'')),
       (''tags'', Val (JArray [JString ''a'', JString ''b'']))]] \<and>
   map_of [(''meta.owner'', ''VARCHAR''), (''tags'', ''VARIANT'')] ''tags'' = Some ''VARIANT''"
proof -
  let ?doc = "JObject [(''meta'', JObject [(''owner'', JString ''ops'')]),
                       (''tags'', JArray [JString ''a'', JString ''b''])]"
  let ?flat = "[(''meta.owner'', Val (JString ''ops'')),
                  (''tags'', Val (JArray [JString ''a'', JString ''b'']))]"
  have n: "json_normalize demo_nested = json_normalize_spec"
    by (simp add: demo_nested_def)
  have c: "cell_at ?flat ''tags'' = Val (JArray [JString ''a'', JString ''b''])"
    by (simp add: cell_at_def)
  have "map_of (schema \<lparr>schema = [(''meta.owner'', ''VARCHAR''), (''tags'', ''VARIANT'')],
          top_level_array = False\<rparr>) ''tags'' = Some ''VARIANT''"
    using json_flattening [where e = demo_nested and b = "''bucket''" and p = "''docs''"
        and s = "''json''" and l = 10 and ov = "[]" and json_data = "[?doc]" and d = "?doc"
        and flat = "?flat" and c = "''tags''" and xs = "[JString ''a'', JString ''b'']"
        and r = "\<lparr>schema = [(''meta.owner'', ''VARCHAR''), (''tags'', ''VARIANT'')],
          top_level_array = False\<rparr>"]
      n demo_nested_arrays demo_nested_documents demo_nested_result demo_nested_records c
    by simp
  with n demo_nested_arrays demo_nested_documents demo_nested_result demo_nested_records
  show ?thesis by simp
qed

text \<open>
  Claim C9. The table maps the dtype of each abstract type to the token the
  specification gives, and has no other key. If the dtype looked up for a column is
  not a key of the table, \<^verbatim>\<open>_get_schema_from_df\<close> raises KeyError, and the entry point
  that called it ends with that error; when it returns, every token of its result is
  the table's token for the dtype looked up for the column, never a default.
\<close>

theorem unmapped_dtype_aborts:
  "map_of PANDAS_TO_SNOWFLAKE (dtype_name a) = Some (spec_token a) \<and>
   (map_of PANDAS_TO_SNOWFLAKE d = None \<or> (\<exists>a'. d = dtype_name a')) \<and>
   ((c, dt) \<in> set (columns df) \<and>
      map_of PANDAS_TO_SNOWFLAKE (classified_dtype df c dt) = None
    \<longrightarrow> (\<exists>d'. get_schema_from_df df = Inl (KeyError d') \<and>
           map_of PANDAS_TO_SNOWFLAKE d' = None)) \<and>
   (get_schema_from_df df = Inr res \<and> (c, t) \<in> set res
    \<longrightarrow> (\<exists>dt'. (c, dt') \<in> set (columns df) \<and>
           map_of PANDAS_TO_SNOWFLAKE (classified_dtype df c dt') = Some t)) \<and>
   (list_non_empty_objects e b p s l \<noteq> [] \<and> csv_frames e b p s l = Inr frames \<and>
      get_schema_from_df (parse_datetime e (concat_convert_dtypes e frames)) = Inl err
    \<longrightarrow> generate_schema_from_csv e b p s l ov = Inl err) \<and>
   (list_non_empty_objects e b p s l \<noteq> [] \<and> json_documents e b p s l = Inr json_data \<and>
      \<not> mixed_roots json_data \<and> json_frames e json_data = Inr frames \<and>
      get_schema_from_df (parse_datetime e (concat_convert_dtypes e frames)) = Inl err
    \<longrightarrow> generate_schema_from_json e b p s l ov = Inl err)"
proof (intro conjI)
  show "map_of PANDAS_TO_SNOWFLAKE (dtype_name a) = Some (spec_token a)"
    by (cases a) (simp_all add: PANDAS_TO_SNOWFLAKE_def)
  show "map_of PANDAS_TO_SNOWFLAKE d = None \<or> (\<exists>a'. d = dtype_name a')"
  proof (cases "map_of PANDAS_TO_SNOWFLAKE d")
    case None
    then show ?thesis by simp
  next
    case (Some t)
    then have "d \<in> {''Int64'', ''Float64'', ''string'', ''boolean'', ''object'', ''datetime64[ns]''}"
      by (simp add: PANDAS_TO_SNOWFLAKE_def split: if_splits)
    then have "d \<in> {dtype_name Integer, dtype_name Float, dtype_name String,
        dtype_name Boolean, dtype_name Variant, dtype_name Timestamp}"
      by simp
    then show ?thesis by blast
  qed
  show "(c, dt) \<in> set (columns df) \<and>
      map_of PANDAS_TO_SNOWFLAKE (classified_dtype df c dt) = None
    \<longrightarrow> (\<exists>d'. get_schema_from_df df = Inl (KeyError d') \<and>
           map_of PANDAS_TO_SNOWFLAKE d' = None)"
    using get_schema_unmapped by blast
  show "get_schema_from_df df = Inr res \<and> (c, t) \<in> set res
    \<longrightarrow> (\<exists>dt'. (c, dt') \<in> set (columns df) \<and>
           map_of PANDAS_TO_SNOWFLAKE (classified_dtype df c dt') = Some t)"
    using get_schema_mapped by blast
  show "list_non_empty_objects e b p s l \<noteq> [] \<and> csv_frames e b p s l = Inr frames \<and>
      get_schema_from_df (parse_datetime e (concat_convert_dtypes e frames)) = Inl err
    \<longrightarrow> generate_schema_from_csv e b p s l ov = Inl err"
    by (simp add: csv_unfold infer_schema_def)
  show "list_non_empty_objects e b p s l \<noteq> [] \<and> json_documents e b p s l = Inr json_data \<and>
      \<not> mixed_roots json_data \<and> json_frames e json_data = Inr frames \<and>
      get_schema_from_df (parse_datetime e (concat_convert_dtypes e frames)) = Inl err
    \<longrightarrow> generate_schema_from_json e b p s l ov = Inl err"
    by (simp add: json_unfold infer_schema_def)
qed

theorem unmapped_dtype_aborts_witness:
  "generate_schema_from_csv demo_tz ''bucket'' ''data'' ''csv'' 10 []
     = Inl (KeyError ''datetime64[ns, UTC]'') \<and>
   map_of PANDAS_TO_SNOWFLAKE ''datetime64[ns, UTC]'' = None \<and>
   map_of PANDAS_TO_SNOWFLAKE ''Int64'' = Some ''NUMBER(38,0)''"
  using unmapped_dtype_aborts [where e = demo_tz and b = "''bucket''" and p = "''data''"
      and s = "''csv''" and l = 10 and frames = "[frame_a, frame_b]"
      and err = "KeyError ''datetime64[ns, UTC]''" and ov = "[]" and a = Integer
      and d = "''datetime64[ns, UTC]''"]
  by (simp add: demo_tz_objects demo_tz_frames demo_tz_schema)
     (simp add: PANDAS_TO_SNOWFLAKE_def)

text \<open>
  Claim C10. When a call of either entry point with no overrides returns, every token
  of the schema is one of the six tokens of the table; with overrides, a token is one
  of the six or the token of an override for that column.
\<close>

theorem inferred_tokens_closed:
  "(call_returns e b p s l [] sch \<longrightarrow> (\<forall>(c, t) \<in> set sch. t \<in> set fixed_tokens)) \<and>
   (call_returns e b p s l ov sch \<longrightarrow>
      (\<forall>(c, t) \<in> set sch. t \<in> set fixed_tokens \<or> (c, t) \<in> set ov))"
proof -
  have general: "t \<in> set fixed_tokens \<or> (c, t) \<in> set ov'"
    if "call_returns e b p s l ov' sch" and "(c, t) \<in> set sch" for ov' c t
  proof -
    from that(1) obtain frames where ret: "returns_schema e b p s l ov' frames sch"
      unfolding call_returns_frames ..
    let ?inferred = "map (\<lambda>c. (c, token_of (merged_dtype e frames c))) (concat_columns frames)"
    from returns_schema_shape [OF ret] have sch: "sch = dict_update ?inferred ov'"
      and ok: "\<forall>c \<in> set (concat_columns frames).
                 map_of PANDAS_TO_SNOWFLAKE (merged_dtype e frames c) \<noteq> None"
      by simp_all
    from that(2) sch set_dict_update [of ?inferred ov']
    have "(c, t) \<in> set ?inferred \<or> (c, t) \<in> set ov'" by auto
    then show ?thesis
    proof
      assume "(c, t) \<in> set ?inferred"
      then have "c \<in> set (concat_columns frames)" and "t = token_of (merged_dtype e frames c)"
        by auto
      with ok show ?thesis by (simp add: token_of_fixed)
    qed simp
  qed
  from general [of "[]"] general [of ov] show ?thesis by auto
qed

theorem inferred_tokens_closed_witness:
  "call_returns demo_csv ''bucket'' ''data'' ''csv'' 10 []
     [(''id'', ''NUMBER(38,0)''), (''when'', ''TIMESTAMP WITHOUT TIME ZONE''),
      (''seen'', ''VARCHAR''), (''note'', ''VARIANT'')] \<and>
   ''NUMBER(38,0)'' \<in> set fixed_tokens \<and> ''TIMESTAMP WITHOUT TIME ZONE'' \<in> set fixed_tokens \<and>
   ''VARCHAR'' \<in> set fixed_tokens \<and> ''VARIANT'' \<in> set fixed_tokens"
proof -
  let ?sch = "[(''id'', ''NUMBER(38,0)''), (''when'', ''TIMESTAMP WITHOUT TIME ZONE''),
      (''seen'', ''VARCHAR''), (''note'', ''VARIANT'')]"
  have r: "call_returns demo_csv ''bucket'' ''data'' ''csv'' 10 [] ?sch"
    using demo_call_returns [of "[]"] by simp
  from inferred_tokens_closed [where e = demo_csv and b = "''bucket''" and p = "''data''"
      and s = "''csv''" and l = 10 and sch = ?sch] r
  have "\<forall>(c, t) \<in> set ?sch. t \<in> set fixed_tokens" by blast
  then show ?thesis using r by simp
qed

end
